theory Spec2Isabelle
  imports Complex_Main "HOL-Library.Sublist"
begin

section \<open>Errors and results\<close>

text \<open>
  Every failure of the library is a JavaScript \<^verbatim>\<open>Error\<close> carrying a message
  (\<^verbatim>\<open>throw new Error(...)\<close>, or an error thrown by \<^verbatim>\<open>fs\<close> and re-thrown).
  A function that may throw returns \<open>error + 'a\<close>, \<open>Inl\<close> being the throw.
\<close>

datatype error = Error string

type_synonym 'a result = "error + 'a"

text \<open>Sequencing: the first throw ends the computation.\<close>

definition bindR :: "'a result \<Rightarrow> ('a \<Rightarrow> 'b result) \<Rightarrow> 'b result" where
  "bindR r f = (case r of Inl e \<Rightarrow> Inl e | Inr v \<Rightarrow> f v)"

section \<open>Byte sizes (utils.ts)\<close>

text \<open>
  JavaScript numbers are modelled as real numbers: rounding, NaN and the infinities of IEEE
  doubles are outside the model. \<^verbatim>\<open>Bytes\<close> is a branded \<^verbatim>\<open>number\<close>.
\<close>

type_synonym Bytes = real

definition createBytes :: "real \<Rightarrow> Bytes result" where
  "createBytes bytes =
     (if bytes < 0 then Inl (Error ''Bytes cannot be negative'') else Inr bytes)"

definition MB :: "real \<Rightarrow> Bytes result" where
  "MB sz = createBytes (sz * 1024 * 1024)"

section \<open>The path module of the platform (POSIX flavour)\<close>

text \<open>
  \<^verbatim>\<open>utils.ts\<close> calls \<^verbatim>\<open>path.normalize\<close>, \<^verbatim>\<open>path.isAbsolute\<close>, \<^verbatim>\<open>path.resolve\<close> and
  \<^verbatim>\<open>path.join\<close> of Node's standard library. They are modelled here after the POSIX
  implementation of that module, as \<open>path_normalize\<close>, \<open>path_isAbsolute\<close>,
  \<open>path_resolve\<close> and \<open>path_join\<close>: a path is cut at every \<^verbatim>\<open>/\<close>, the segments are
  scanned from left to right (empty segments and \<^verbatim>\<open>.\<close> are dropped, \<^verbatim>\<open>..\<close> removes the
  segment before it, or is kept in front of a relative path), and the remaining segments
  are glued with \<^verbatim>\<open>/\<close>. The Windows flavour of the module is not modelled.
\<close>

text \<open>\<^verbatim>\<open>Array.prototype.join\<close> on strings.\<close>

fun joinWith :: "string \<Rightarrow> string list \<Rightarrow> string" where
  "joinWith sep [] = []"
| "joinWith sep [s] = s"
| "joinWith sep (s # t # ss) = s @ sep @ joinWith sep (t # ss)"

text \<open>Cutting a string at every \<^verbatim>\<open>/\<close>; the result always has at least one segment.\<close>

fun splitSegs :: "string \<Rightarrow> string list" where
  "splitSegs [] = [[]]"
| "splitSegs (c # cs) =
     (if c = CHR ''/'' then [] # splitSegs cs
      else (case splitSegs cs of
              [] \<Rightarrow> [[c]]
            | s # ss \<Rightarrow> (c # s) # ss))"

text \<open>
  The scan of \<^verbatim>\<open>normalizeString\<close>: \<open>res\<close> holds the segments kept so far.
\<close>

fun normSegs :: "bool \<Rightarrow> string list \<Rightarrow> string list \<Rightarrow> string list" where
  "normSegs allowAboveRoot res [] = res"
| "normSegs allowAboveRoot res (s # ss) =
     (if s = [] \<or> s = ''.'' then normSegs allowAboveRoot res ss
      else if s = ''..'' then
        (if res \<noteq> [] \<and> last res \<noteq> ''..'' then normSegs allowAboveRoot (butlast res) ss
         else if allowAboveRoot then normSegs allowAboveRoot (res @ [''..'']) ss
         else normSegs allowAboveRoot res ss)
      else normSegs allowAboveRoot (res @ [s]) ss)"

definition normalizeString :: "string \<Rightarrow> bool \<Rightarrow> string" where
  "normalizeString path allowAboveRoot =
     joinWith ''/'' (normSegs allowAboveRoot [] (splitSegs path))"

definition path_isAbsolute :: "string \<Rightarrow> bool" where
  "path_isAbsolute path = (case path of [] \<Rightarrow> False | c # _ \<Rightarrow> c = CHR ''/'')"

definition path_normalize :: "string \<Rightarrow> string" where
  "path_normalize path =
     (if path = [] then ''.''
      else
        let isAbs = (hd path = CHR ''/'');
            trailingSeparator = (last path = CHR ''/'');
            p = normalizeString path (\<not> isAbs)
        in if p = [] then (if isAbs then ''/'' else if trailingSeparator then ''./'' else ''.'')
           else
             let p' = (if trailingSeparator then p @ ''/'' else p)
             in if isAbs then ''/'' @ p' else p')"

definition path_join :: "string list \<Rightarrow> string" where
  "path_join args =
     (let parts = filter (\<lambda>arg. arg \<noteq> []) args
      in if parts = [] then ''.'' else path_normalize (joinWith ''/'' parts))"

text \<open>
  The loop of \<^verbatim>\<open>path.resolve\<close> runs from the last argument to the first and then to the
  working directory, and stops at the first absolute one; \<open>resolveLoop\<close> takes the
  arguments in that order.
\<close>

fun resolveLoop :: "string list \<Rightarrow> string \<Rightarrow> string \<times> bool" where
  "resolveLoop [] resolvedPath = (resolvedPath, False)"
| "resolveLoop (p # ps) resolvedPath =
     (if p = [] then resolveLoop ps resolvedPath
      else if path_isAbsolute p then (p @ ''/'' @ resolvedPath, True)
      else resolveLoop ps (p @ ''/'' @ resolvedPath))"

definition path_resolve :: "string \<Rightarrow> string list \<Rightarrow> string" where
  "path_resolve cwd args =
     (let (resolvedPath, resolvedAbsolute) = resolveLoop (rev args @ [cwd]) [];
          p = normalizeString resolvedPath (\<not> resolvedAbsolute)
      in if resolvedAbsolute then ''/'' @ p
         else if p \<noteq> [] then p else ''.'')"

section \<open>Safe paths (utils.ts)\<close>

text \<open>
  \<^verbatim>\<open>SafePath\<close> is a branded string. The working directory \<^verbatim>\<open>process.cwd()\<close> is an
  argument of every function that reads it.
\<close>

type_synonym SafePath = string

definition createSafePath :: "string \<Rightarrow> string \<Rightarrow> SafePath" where
  "createSafePath cwd filePath =
     (let normalizedPath = path_normalize filePath
      in if path_isAbsolute normalizedPath then normalizedPath
         else path_resolve cwd [cwd, normalizedPath])"

definition joinSafePaths :: "string \<Rightarrow> string list \<Rightarrow> SafePath" where
  "joinSafePaths cwd paths = createSafePath cwd (path_join paths)"

definition getDefaultLogPath :: "string \<Rightarrow> SafePath" where
  "getDefaultLogPath cwd = joinSafePaths cwd [createSafePath cwd cwd, ''logs'']"

definition createSafePathWithSuffix :: "string \<Rightarrow> SafePath \<Rightarrow> string \<Rightarrow> SafePath" where
  "createSafePathWithSuffix cwd basePath sfx = createSafePath cwd (basePath @ sfx)"

section \<open>Options (types.ts)\<close>

text \<open>
  A property of an options object is absent, present with the value \<^verbatim>\<open>undefined\<close>, or
  present with a value: object spread copies a property that is present, whatever it holds.
\<close>

datatype 'a property = Absent | Undefined | Value 'a

text \<open>Reading a property (\<^verbatim>\<open>o.k\<close>, or destructuring): \<open>None\<close> is \<^verbatim>\<open>undefined\<close>.\<close>

fun get :: "'a property \<Rightarrow> 'a option" where
  "get (Value v) = Some v"
| "get Undefined = None"
| "get Absent = None"

text \<open>One property of \<^verbatim>\<open>{...a, ...b}\<close>.\<close>

fun spread :: "'a property \<Rightarrow> 'a property \<Rightarrow> 'a property" where
  "spread a Absent = a"
| "spread a b = b"

text \<open>Truthiness of a value read from an options object.\<close>

fun truthy :: "bool option \<Rightarrow> bool" where
  "truthy (Some b) = b"
| "truthy None = False"

datatype LogLevel = error | debug | warn | data | info | verbose | silly

datatype Environment = development | production | test

text \<open>
  \<^verbatim>\<open>Partial<LoggerOptions>\<close> and \<^verbatim>\<open>MergedLoggerOptions\<close> have the same fields; they differ
  in \<^verbatim>\<open>logName\<close> and \<^verbatim>\<open>logDirectory\<close>, optional in the first and required in the second.
  \<open>'t\<close> is the type of the caller's transports, \<open>'f\<close> of the caller's format.
\<close>

record ('n, 'd, 't, 'f) Options =
  logName :: 'n
  level :: "LogLevel property"
  logDirectory :: 'd
  enableFileLogging :: "bool property"
  maxFileSize :: "Bytes property"
  maxFiles :: "real property"
  separateErrorLog :: "bool property"
  separateWarnLog :: "bool property"
  useDailyRotation :: "bool property"
  enableConsoleLogging :: "bool property"
  prettyPrint :: "bool property"
  colorize :: "bool property"
  timestampFormat :: "string property"
  locale' :: "string property"
  silent :: "bool property"
  handleExceptions :: "bool property"
  handleRejections :: "bool property"
  customTransports :: "'t list property"
  customFormat :: "'f property"

type_synonym ('t, 'f) LoggerOptions = "(string property, string property, 't, 'f) Options"

type_synonym ('t, 'f) MergedLoggerOptions = "(string, SafePath, 't, 'f) Options"

text \<open>The options object \<^verbatim>\<open>{}\<close>.\<close>

definition emptyOptions :: "('t, 'f) LoggerOptions" where
  "emptyOptions =
     \<lparr> logName = Absent, level = Absent, logDirectory = Absent, enableFileLogging = Absent,
       maxFileSize = Absent, maxFiles = Absent, separateErrorLog = Absent,
       separateWarnLog = Absent, useDailyRotation = Absent, enableConsoleLogging = Absent,
       prettyPrint = Absent, colorize = Absent, timestampFormat = Absent, locale' = Absent,
       silent = Absent, handleExceptions = Absent, handleRejections = Absent,
       customTransports = Absent, customFormat = Absent \<rparr>"

section \<open>The logger factory (log-facotry.ts)\<close>

subsection \<open>Levels and environment defaults\<close>

fun levels :: "LogLevel \<Rightarrow> nat" where
  "levels error = 0"
| "levels debug = 1"
| "levels warn = 2"
| "levels data = 3"
| "levels info = 4"
| "levels verbose = 5"
| "levels silly = 6"

text \<open>
  \<^verbatim>\<open>defaultOptions\<close> is built when the module is loaded; each \<^verbatim>\<open>MB(...)\<close> in it may
  throw, so the table is a result.
\<close>

definition defaultOptions :: "(Environment \<Rightarrow> ('t, 'f) LoggerOptions) result" where
  "defaultOptions =
     bindR (MB 5) (\<lambda>mb5.
     bindR (MB 10) (\<lambda>mb10.
     bindR (MB 1) (\<lambda>mb1.
      Inr (\<lambda>env. case env of
        development \<Rightarrow> (emptyOptions
          \<lparr> level := Value debug,
            enableConsoleLogging := Value True,
            enableFileLogging := Value True,
            prettyPrint := Value True,
            colorize := Value True,
            maxFileSize := Value mb5,
            maxFiles := Value 5,
            separateErrorLog := Value True,
            separateWarnLog := Value True,
            useDailyRotation := Value False \<rparr>)
      | production \<Rightarrow> (emptyOptions
          \<lparr> level := Value info,
            enableConsoleLogging := Value False,
            enableFileLogging := Value True,
            prettyPrint := Value False,
            colorize := Value False,
            maxFileSize := Value mb10,
            maxFiles := Value 10,
            separateErrorLog := Value True,
            separateWarnLog := Value False,
            useDailyRotation := Value True \<rparr>)
      | test \<Rightarrow> (emptyOptions
          \<lparr> level := Value debug,
            enableConsoleLogging := Value False,
            enableFileLogging := Value True,
            prettyPrint := Value False,
            colorize := Value False,
            maxFileSize := Value mb1,
            maxFiles := Value 2,
            separateErrorLog := Value True,
            separateWarnLog := Value False,
            useDailyRotation := Value False \<rparr>)))))"

text \<open>
  The type guard \<^verbatim>\<open>isValidEnvironment\<close>: \<open>None\<close> when the string is not in the list,
  else the string narrowed to \<^verbatim>\<open>Environment\<close>.
\<close>

definition isValidEnvironment :: "string \<Rightarrow> Environment option" where
  "isValidEnvironment env =
     (if env = ''development'' then Some development
      else if env = ''production'' then Some production
      else if env = ''test'' then Some test
      else None)"

subsection \<open>Merging the options\<close>

text \<open>
  \<^verbatim>\<open>finalOptions\<close> of \<^verbatim>\<open>createLogger\<close>: the spread of the environment defaults, then of
  the caller's options, then the three computed properties. \<^verbatim>\<open>options.logDirectory ? ... : ...\<close>
  tests truthiness (the empty string is falsy); \<^verbatim>\<open>??\<close> falls through on \<^verbatim>\<open>undefined\<close>.
\<close>

definition safeLogDirectory :: "string \<Rightarrow> ('t, 'f) LoggerOptions \<Rightarrow> SafePath" where
  "safeLogDirectory cwd options =
     (case get (logDirectory options) of
        Some d \<Rightarrow> if d \<noteq> [] then createSafePath cwd d else getDefaultLogPath cwd
      | None \<Rightarrow> getDefaultLogPath cwd)"

definition finalOptions ::
  "string \<Rightarrow> ('t, 'f) LoggerOptions \<Rightarrow> ('t, 'f) LoggerOptions \<Rightarrow> ('t, 'f) MergedLoggerOptions result"
where
  "finalOptions cwd defaultEnvOptions options =
     bindR (case get (maxFileSize options) of
              Some m \<Rightarrow> Inr m
            | None \<Rightarrow> (case get (maxFileSize defaultEnvOptions) of
                         Some m \<Rightarrow> Inr m
                       | None \<Rightarrow> MB 5))
       (\<lambda>m. Inr
         \<lparr> logName = (case get (logName options) of Some n \<Rightarrow> n | None \<Rightarrow> ''app''),
           level = spread (level defaultEnvOptions) (level options),
           logDirectory = safeLogDirectory cwd options,
           enableFileLogging = spread (enableFileLogging defaultEnvOptions) (enableFileLogging options),
           maxFileSize = Value m,
           maxFiles = spread (maxFiles defaultEnvOptions) (maxFiles options),
           separateErrorLog = spread (separateErrorLog defaultEnvOptions) (separateErrorLog options),
           separateWarnLog = spread (separateWarnLog defaultEnvOptions) (separateWarnLog options),
           useDailyRotation = spread (useDailyRotation defaultEnvOptions) (useDailyRotation options),
           enableConsoleLogging =
             spread (enableConsoleLogging defaultEnvOptions) (enableConsoleLogging options),
           prettyPrint = spread (prettyPrint defaultEnvOptions) (prettyPrint options),
           colorize = spread (colorize defaultEnvOptions) (colorize options),
           timestampFormat = spread (timestampFormat defaultEnvOptions) (timestampFormat options),
           locale' = spread (locale' defaultEnvOptions) (locale' options),
           silent = spread (silent defaultEnvOptions) (silent options),
           handleExceptions = spread (handleExceptions defaultEnvOptions) (handleExceptions options),
           handleRejections = spread (handleRejections defaultEnvOptions) (handleRejections options),
           customTransports = spread (customTransports defaultEnvOptions) (customTransports options),
           customFormat = spread (customFormat defaultEnvOptions) (customFormat options) \<rparr>)"

subsection \<open>Formats\<close>








text \<open>
  A format object handed to the engine: the caller's, the console format with the two
  switches it was built from, the file format with its locale, or \<^verbatim>\<open>simple()\<close>.
\<close>

datatype 'f Format =
    Custom 'f
  | ConsoleFormat bool bool
  | FileFormat string
  | Simple

subsection \<open>Transports\<close>

record 'f FileTransportOptions =
  file_maxsize :: "Bytes option"
  file_maxFiles :: "real option"
  file_format :: "'f Format"
  file_zippedArchive :: bool
  file_tailable :: bool
  file_filename :: string
  file_level :: "LogLevel option"

datatype ('t, 'f) Transport =
    Console "'f Format"
  | File "'f FileTransportOptions"
  | DailyRotateFile "'f FileTransportOptions" string
  | CallerTransport 't

definition logDir :: "string \<Rightarrow> ('t, 'f) MergedLoggerOptions \<Rightarrow> SafePath" where
  "logDir cwd fo = joinSafePaths cwd [logDirectory fo, logName fo]"

definition createLogPath :: "string \<Rightarrow> ('t, 'f) MergedLoggerOptions \<Rightarrow> string \<Rightarrow> SafePath" where
  "createLogPath cwd fo sfx =
     (let baseLogPath = joinSafePaths cwd [logDir cwd fo, logName fo]
      in createSafePathWithSuffix cwd baseLogPath sfx)"

definition fileOptions ::
  "string \<Rightarrow> ('t, 'f) MergedLoggerOptions \<Rightarrow> string \<Rightarrow> LogLevel option \<Rightarrow> 'f FileTransportOptions"
where
  "fileOptions cwd fo sfx lvl =
     \<lparr> file_maxsize = get (maxFileSize fo),
       file_maxFiles = get (maxFiles fo),
       file_format = FileFormat (case get (locale' fo) of
                                   Some l \<Rightarrow> if l \<noteq> [] then l else ''en-US''
                                 | None \<Rightarrow> ''en-US''),
       file_zippedArchive = True,
       file_tailable = True,
       file_filename = createLogPath cwd fo sfx,
       file_level = lvl \<rparr>"

text \<open>The list \<^verbatim>\<open>transports\<close>, in the order of the \<^verbatim>\<open>push\<close> calls.\<close>

definition transports :: "string \<Rightarrow> ('t, 'f) MergedLoggerOptions \<Rightarrow> ('t, 'f) Transport list" where
  "transports cwd fo =
     (if truthy (get (enableConsoleLogging fo)) then
        [Console (case get (customFormat fo) of
                    Some f \<Rightarrow> Custom f
                  | None \<Rightarrow> ConsoleFormat (truthy (get (prettyPrint fo)))
                                            (truthy (get (colorize fo))))]
      else [])
     @
     (if truthy (get (enableFileLogging fo)) then
        (if truthy (get (useDailyRotation fo)) then
           [DailyRotateFile (fileOptions cwd fo ''-%DATE%.log'' None) ''YYYY-MM-DD'']
         else
           [File (fileOptions cwd fo ''-All.log'' None)])
        @
        (if truthy (get (separateErrorLog fo)) then
           [File (fileOptions cwd fo ''-error.log'' (Some error))]
         else [])
        @
        (if truthy (get (separateWarnLog fo)) then
           [File (fileOptions cwd fo ''-warn.log'' (Some warn))]
         else [])
      else [])
     @
     (case get (customTransports fo) of
        Some ts \<Rightarrow> map CallerTransport ts
      | None \<Rightarrow> [])"

subsection \<open>The factory\<close>

text \<open>
  What the factory reads and changes outside itself: the process (\<^verbatim>\<open>NODE_ENV\<close>, the
  working directory), the console, and the file system, whose state \<open>'fs\<close> is reached only
  through \<^verbatim>\<open>fs.existsSync\<close> and \<^verbatim>\<open>fs.mkdirSync\<close>.
\<close>

record Process =
  NODE_ENV :: "string option"
  cwd :: string

datatype ConsoleLine = console_warn string | console_error string

record 'fs FileSystem =
  existsSync :: "'fs \<Rightarrow> string \<Rightarrow> bool"
  mkdirSync :: "'fs \<Rightarrow> string \<Rightarrow> 'fs result"

text \<open>The configuration handed to \<^verbatim>\<open>winston.createLogger\<close>.\<close>

record ('t, 'f) Logger =
  logger_levels :: "LogLevel \<Rightarrow> nat"
  logger_level :: LogLevel
  logger_silent :: "bool option"
  logger_handleExceptions :: "bool option"
  logger_handleRejections :: "bool option"
  logger_transports :: "('t, 'f) Transport list"
  logger_format :: "'f Format"

text \<open>
  \<^verbatim>\<open>createLogger\<close> returns the lines written to the console, the file system it leaves, and
  the logger or the error thrown. A module whose \<^verbatim>\<open>defaultOptions\<close> could not be built has
  no \<^verbatim>\<open>createLogger\<close> to call: that is the first case.
\<close>

definition createLogger ::
  "'fs FileSystem \<Rightarrow> Process \<Rightarrow> 'fs \<Rightarrow> ('t, 'f) LoggerOptions
     \<Rightarrow> ConsoleLine list \<times> 'fs \<times> ('t, 'f) Logger result"
where
  "createLogger fsys process fs options =
     (case defaultOptions of
        Inl e \<Rightarrow> ([], fs, Inl e)
      | Inr table \<Rightarrow>
     (let unset = (case NODE_ENV process of None \<Rightarrow> True | Some v \<Rightarrow> v = []);
          env = (case NODE_ENV process of
                   None \<Rightarrow> ''development''
                 | Some v \<Rightarrow> if v \<noteq> [] then v else ''development'');
          out = (if unset
                 then [console_warn ''NODE_ENV not set, defaulting to development environment'']
                 else [])
      in case isValidEnvironment env of
           None \<Rightarrow> (out, fs, Inl (Error (''Invalid environment: '' @ env)))
         | Some e \<Rightarrow>
             (case finalOptions (cwd process) (table e) options of
                Inl err \<Rightarrow> (out, fs, Inl err)
              | Inr fo \<Rightarrow>
                  (let made =
                         (if \<not> existsSync fsys fs (logDir (cwd process) fo)
                          then mkdirSync fsys fs (logDir (cwd process) fo)
                          else Inr fs)
                   in case made of
                        Inl (Error errorMessage) \<Rightarrow>
                          (out @ [console_error (''Failed to create log directory: '' @ errorMessage)],
                           fs, Inl (Error errorMessage))
                      | Inr fs' \<Rightarrow>
                          (out, fs',
                           Inr \<lparr> logger_levels = levels,
                                 logger_level = (case get (level fo) of Some l \<Rightarrow> l | None \<Rightarrow> info),
                                 logger_silent = get (silent fo),
                                 logger_handleExceptions = get (handleExceptions fo),
                                 logger_handleRejections = get (handleRejections fo),
                                 logger_transports = transports (cwd process) fo,
                                 logger_format = (case get (customFormat fo) of
                                                    Some f \<Rightarrow> Custom f
                                                  | None \<Rightarrow> Simple) \<rparr>)))))"

definition createSimpleLogger ::
  "'fs FileSystem \<Rightarrow> Process \<Rightarrow> 'fs \<Rightarrow> Environment
     \<Rightarrow> ConsoleLine list \<times> 'fs \<times> ('t, 'f) Logger result"
where
  "createSimpleLogger fsys process fs env =
     (case defaultOptions of
        Inl e \<Rightarrow> ([], fs, Inl e)
      | Inr table \<Rightarrow> createLogger fsys process fs (table env))"

section \<open>Vocabulary of the specification\<close>

text \<open>
  The table of environment defaults as the specification prints it (section 4.3), one row
  for each environment; sizes in bytes, a megabyte being 1048576 bytes.
\<close>

record SpecRow =
  row_level :: LogLevel
  row_console :: bool
  row_file :: bool
  row_pretty :: bool
  row_color :: bool
  row_maxSize :: real
  row_maxFiles :: real
  row_errLog :: bool
  row_warnLog :: bool
  row_dailyRotate :: bool

fun specTable :: "Environment \<Rightarrow> SpecRow" where
  "specTable development =
     \<lparr> row_level = debug, row_console = True, row_file = True, row_pretty = True,
       row_color = True, row_maxSize = 5 * 1048576, row_maxFiles = 5, row_errLog = True,
       row_warnLog = True, row_dailyRotate = False \<rparr>"
| "specTable production =
     \<lparr> row_level = info, row_console = False, row_file = True, row_pretty = False,
       row_color = False, row_maxSize = 10 * 1048576, row_maxFiles = 10, row_errLog = True,
       row_warnLog = False, row_dailyRotate = True \<rparr>"
| "specTable test =
     \<lparr> row_level = debug, row_console = False, row_file = True, row_pretty = False,
       row_color = False, row_maxSize = 1 * 1048576, row_maxFiles = 2, row_errLog = True,
       row_warnLog = False, row_dailyRotate = False \<rparr>"

text \<open>
  The kinds of sink of the specification (section 3), read off a transport: a file
  transport without a level is the combined file, one filtered to \<^verbatim>\<open>error\<close> the error file,
  one filtered to \<^verbatim>\<open>warn\<close> the warning file.
\<close>

datatype 't SinkKind =
    ConsoleSink
  | CombinedFileSink
  | ErrorFileSink
  | WarningFileSink
  | RotatedFileSink
  | CustomSink 't
  | OtherFileSink

fun sinkKind :: "('t, 'f) Transport \<Rightarrow> 't SinkKind" where
  "sinkKind (Console f) = ConsoleSink"
| "sinkKind (DailyRotateFile opts pat) = RotatedFileSink"
| "sinkKind (File opts) =
     (case file_level opts of
        None \<Rightarrow> CombinedFileSink
      | Some l \<Rightarrow> if l = error then ErrorFileSink
                  else if l = warn then WarningFileSink else OtherFileSink)"
| "sinkKind (CallerTransport t) = CustomSink t"

definition callerSinks :: "('t, 'f) MergedLoggerOptions \<Rightarrow> 't list" where
  "callerSinks fo = (case get (customTransports fo) of Some ts \<Rightarrow> ts | None \<Rightarrow> [])"

section \<open>Two file systems\<close>

text \<open>
  One whose state is the list of the directories made so far and in which every directory
  can be made, and one in which nothing exists and nothing can be made.
\<close>

definition growingFs :: "string list FileSystem" where
  "growingFs = \<lparr> existsSync = (\<lambda>fs p. p \<in> set fs), mkdirSync = (\<lambda>fs p. Inr (p # fs)) \<rparr>"

definition readOnlyFs :: "unit FileSystem" where
  "readOnlyFs =
     \<lparr> existsSync = (\<lambda>fs p. False),
       mkdirSync = (\<lambda>fs p. Inl (Error (''EACCES: permission denied, mkdir '' @ p))) \<rparr>"

section \<open>The console line and a sample of JSON\<close>



section \<open>Vocabulary for paths\<close>

text \<open>
  An ordinary segment of a path: not empty, neither \<^verbatim>\<open>.\<close> nor \<^verbatim>\<open>..\<close>, and without a
  separator in it.
\<close>

definition plainSeg :: "string \<Rightarrow> bool" where
  "plainSeg s = (s \<noteq> [] \<and> s \<noteq> ''.'' \<and> s \<noteq> ''..'' \<and> CHR ''/'' \<notin> set s)"

text \<open>What the scan keeps of a path: segments that are not empty and hold no separator.\<close>

definition keptSeg :: "string \<Rightarrow> bool" where
  "keptSeg s = (s \<noteq> [] \<and> CHR ''/'' \<notin> set s)"

text \<open>The absolute path with the given segments, with or without a separator at its end.\<close>

definition absRender :: "string list \<Rightarrow> bool \<Rightarrow> string" where
  "absRender segs trailing =
     (if segs = [] then ''/''
      else ''/'' @ joinWith ''/'' segs @ (if trailing then ''/'' else []))"

text \<open>A directory path without the separator at its end, ready for \<^verbatim>\<open>/name\<close> to follow.\<close>

definition dirPrefix :: "string \<Rightarrow> string" where
  "dirPrefix p = (if p \<noteq> [] \<and> last p = CHR ''/'' then butlast p else p)"

text \<open>The file names of the file transports of a list, in the order of the list.\<close>

fun filePaths :: "('t, 'f) Transport list \<Rightarrow> string list" where
  "filePaths [] = []"
| "filePaths (File opts # ts) = file_filename opts # filePaths ts"
| "filePaths (DailyRotateFile opts pat # ts) = file_filename opts # filePaths ts"
| "filePaths (t # ts) = filePaths ts"

section \<open>The resolver of the specification\<close>

text \<open>
  The environment name a call works with (specification 4.6, step 1): \<^verbatim>\<open>NODE_ENV\<close>, or
  \<^verbatim>\<open>development\<close> when it is absent or empty.
\<close>

definition ambientEnvironment :: "Process \<Rightarrow> string" where
  "ambientEnvironment process =
     (case NODE_ENV process of
        None \<Rightarrow> ''development''
      | Some v \<Rightarrow> if v \<noteq> [] then v else ''development'')"

text \<open>
  The option resolver (specification 4.4), \<^verbatim>\<open>resolve(env, caller)\<close>: the environment name
  is validated, its defaults are looked up, and the caller's options are merged over
  them. It is put together from the parts of \<^verbatim>\<open>createLogger\<close>; the theorems below relate
  it to what \<^verbatim>\<open>createLogger\<close> returns.
\<close>

definition resolveOptions ::
  "string \<Rightarrow> string \<Rightarrow> ('t, 'f) LoggerOptions \<Rightarrow> ('t, 'f) MergedLoggerOptions result"
where
  "resolveOptions c env options =
     bindR defaultOptions (\<lambda>table.
       case isValidEnvironment env of
         None \<Rightarrow> Inl (Error (''Invalid environment: '' @ env))
       | Some e \<Rightarrow> finalOptions c (table e) options)"

text \<open>The name of each environment, as \<^verbatim>\<open>NODE_ENV\<close> holds it.\<close>

fun environmentName :: "Environment \<Rightarrow> string" where
  "environmentName development = ''development''"
| "environmentName production = ''production''"
| "environmentName test = ''test''"

text \<open>
  The path of a file sink as the specification derives it from the caller's directory
  \<open>D\<close> and name \<open>N\<close>: the join of \<open>D\<close> and \<open>N\<close>, joined again with \<open>N\<close>, with the suffix
  appended (4.6 step 3 and 4.5 steps 2a to 2d).
\<close>

definition sinkPath :: "string \<Rightarrow> string \<Rightarrow> string \<Rightarrow> string \<Rightarrow> SafePath" where
  "sinkPath c D N sfx =
     createSafePathWithSuffix c (joinSafePaths c [joinSafePaths c [D, N], N]) sfx"

section \<open>Byte sizes: properties\<close>

lemma MB_5: "MB 5 = Inr 5242880"
  by (simp add: MB_def createBytes_def)

lemma MB_10: "MB 10 = Inr 10485760"
  by (simp add: MB_def createBytes_def)

lemma MB_1: "MB 1 = Inr 1048576"
  by (simp add: MB_def createBytes_def)

text \<open>
  Claim C7. For every number \<open>n \<ge> 0\<close>, \<^verbatim>\<open>MB(n)\<close> is \<open>n * 1048576\<close>; for every \<open>n < 0\<close>,
  \<^verbatim>\<open>createBytes(n)\<close> throws the error ``Bytes cannot be negative''; and there is no upper
  bound: every \<open>n \<ge> 0\<close> is accepted as it is.
\<close>

theorem megabytes_and_bytes:
  "(0 \<le> n \<longrightarrow> MB n = Inr (n * 1048576)) \<and>
   (n < 0 \<longrightarrow> createBytes n = Inl (Error ''Bytes cannot be negative'')) \<and>
   (0 \<le> n \<longrightarrow> createBytes n = Inr n)"
  by (simp add: MB_def createBytes_def)

theorem megabytes_and_bytes_witness:
  "MB 5 = Inr 5242880 \<and> createBytes (- 1) = Inl (Error ''Bytes cannot be negative'') \<and>
   createBytes 1000000000000000000000000 = Inr 1000000000000000000000000"
  using megabytes_and_bytes [of 5] megabytes_and_bytes [of "- 1"]
    megabytes_and_bytes [of 1000000000000000000000000]
  by simp

section \<open>Merging the options: properties\<close>

lemma defaultOptions_loaded:
  "\<exists>t. (defaultOptions :: (Environment \<Rightarrow> ('t, 'f) LoggerOptions) result) = Inr t"
  by (simp add: defaultOptions_def bindR_def MB_def createBytes_def)

lemma finalOptions_total: "\<exists>fo. finalOptions c d options = Inr fo"
  by (simp add: finalOptions_def bindR_def MB_def createBytes_def split: option.split)

text \<open>
  Claim C1. For each of the three environments, resolving the name of the environment
  with the empty options object gives a configuration whose level, console, file,
  pretty-print, colour, maximal size, maximal number of files, error-log, warning-log and
  daily-rotation properties are the values of the row of that environment in the table of
  the specification; and \<^verbatim>\<open>createLogger\<close>, called with that name in \<^verbatim>\<open>NODE_ENV\<close> and with the
  empty options object, makes the log directory of that configuration if it does not
  exist and returns the logger with the level of the row and the transports of that
  configuration.
\<close>

theorem defaults_match_table:
  "\<exists>fo :: ('t, 'f) MergedLoggerOptions.
     resolveOptions c (environmentName env) emptyOptions = Inr fo \<and>
     level fo = Value (row_level (specTable env)) \<and>
     enableConsoleLogging fo = Value (row_console (specTable env)) \<and>
     enableFileLogging fo = Value (row_file (specTable env)) \<and>
     prettyPrint fo = Value (row_pretty (specTable env)) \<and>
     colorize fo = Value (row_color (specTable env)) \<and>
     maxFileSize fo = Value (row_maxSize (specTable env)) \<and>
     maxFiles fo = Value (row_maxFiles (specTable env)) \<and>
     separateErrorLog fo = Value (row_errLog (specTable env)) \<and>
     separateWarnLog fo = Value (row_warnLog (specTable env)) \<and>
     useDailyRotation fo = Value (row_dailyRotate (specTable env)) \<and>
     createLogger fsys \<lparr> NODE_ENV = Some (environmentName env), cwd = c \<rparr> fs emptyOptions =
       (case (if existsSync fsys fs (logDir c fo) then Inr fs
              else mkdirSync fsys fs (logDir c fo)) of
          Inl (Error m) \<Rightarrow>
            ([console_error (''Failed to create log directory: '' @ m)], fs, Inl (Error m))
        | Inr fs' \<Rightarrow>
            ([], fs',
             Inr \<lparr> logger_levels = levels,
                   logger_level = row_level (specTable env),
                   logger_silent = None,
                   logger_handleExceptions = None,
                   logger_handleRejections = None,
                   logger_transports = transports c fo,
                   logger_format = Simple \<rparr>))"
proof -
  obtain t :: "Environment \<Rightarrow> ('t, 'f) LoggerOptions" where t: "defaultOptions = Inr t"
    using defaultOptions_loaded by blast
  obtain fo where fo: "finalOptions c (t env) emptyOptions = Inr fo"
    using finalOptions_total by blast
  have v: "isValidEnvironment (environmentName env) = Some env"
    by (cases env) (simp_all add: isValidEnvironment_def)
  have ne: "environmentName env \<noteq> []"
    by (cases env) simp_all
  have r: "resolveOptions c (environmentName env) emptyOptions = Inr fo"
    by (simp add: resolveOptions_def bindR_def t v fo)
  have f: "level fo = Value (row_level (specTable env))"
    "enableConsoleLogging fo = Value (row_console (specTable env))"
    "enableFileLogging fo = Value (row_file (specTable env))"
    "prettyPrint fo = Value (row_pretty (specTable env))"
    "colorize fo = Value (row_color (specTable env))"
    "maxFileSize fo = Value (row_maxSize (specTable env))"
    "maxFiles fo = Value (row_maxFiles (specTable env))"
    "separateErrorLog fo = Value (row_errLog (specTable env))"
    "separateWarnLog fo = Value (row_warnLog (specTable env))"
    "useDailyRotation fo = Value (row_dailyRotate (specTable env))"
    "silent fo = Absent" "handleExceptions fo = Absent" "handleRejections fo = Absent"
    "customFormat fo = Absent"
    using t fo
    by (cases env;
        auto simp: defaultOptions_def bindR_def MB_def createBytes_def finalOptions_def
          emptyOptions_def)+
  have "createLogger fsys \<lparr> NODE_ENV = Some (environmentName env), cwd = c \<rparr> fs emptyOptions =
       (case (if existsSync fsys fs (logDir c fo) then Inr fs
              else mkdirSync fsys fs (logDir c fo)) of
          Inl (Error m) \<Rightarrow>
            ([console_error (''Failed to create log directory: '' @ m)], fs, Inl (Error m))
        | Inr fs' \<Rightarrow>
            ([], fs',
             Inr \<lparr> logger_levels = levels,
                   logger_level = row_level (specTable env),
                   logger_silent = None,
                   logger_handleExceptions = None,
                   logger_handleRejections = None,
                   logger_transports = transports c fo,
                   logger_format = Simple \<rparr>))"
    by (simp add: createLogger_def t v ne fo f Let_def split: sum.split error.split)
  with r f show ?thesis by blast
qed

text \<open>
  Claim C6. Whatever the caller's options and the environment, the merged \<^verbatim>\<open>maxFileSize\<close>
  is the caller's when the caller gave one, else that of the environment defaults, else
  \<^verbatim>\<open>MB(5)\<close>; the same holds for any defaults object \<open>d\<close> in place of a row of the table.
\<close>

theorem maxFileSize_precedence:
  "\<exists>t mb5 (fo :: ('t, 'f) MergedLoggerOptions) (fo' :: ('t, 'f) MergedLoggerOptions).
     defaultOptions = Inr t \<and> MB 5 = Inr mb5 \<and>
     finalOptions c (t env) options = Inr fo \<and>
     maxFileSize fo =
       Value (case get (maxFileSize options) of
                Some m \<Rightarrow> m
              | None \<Rightarrow> (case get (maxFileSize (t env)) of Some m \<Rightarrow> m | None \<Rightarrow> mb5)) \<and>
     finalOptions c d options = Inr fo' \<and>
     maxFileSize fo' =
       Value (case get (maxFileSize options) of
                Some m \<Rightarrow> m
              | None \<Rightarrow> (case get (maxFileSize d) of Some m \<Rightarrow> m | None \<Rightarrow> mb5))"
  by (cases env; cases "maxFileSize options"; cases "maxFileSize d")
     (simp_all add: defaultOptions_def bindR_def MB_def createBytes_def finalOptions_def
        emptyOptions_def)

text \<open>
  Claim C10. A property that the caller's options hold with the value \<^verbatim>\<open>undefined\<close>
  (any property but \<^verbatim>\<open>logName\<close>, \<^verbatim>\<open>logDirectory\<close> and \<^verbatim>\<open>maxFileSize\<close>) is \<^verbatim>\<open>undefined\<close> in
  the merged configuration, whatever the environment defaults hold for it.
\<close>

theorem explicit_undefined_overrides:
  assumes "finalOptions c d options = Inr fo"
  shows "(level options = Undefined \<longrightarrow> level fo = Undefined) \<and>
         (enableFileLogging options = Undefined \<longrightarrow> enableFileLogging fo = Undefined) \<and>
         (maxFiles options = Undefined \<longrightarrow> maxFiles fo = Undefined) \<and>
         (separateErrorLog options = Undefined \<longrightarrow> separateErrorLog fo = Undefined) \<and>
         (separateWarnLog options = Undefined \<longrightarrow> separateWarnLog fo = Undefined) \<and>
         (useDailyRotation options = Undefined \<longrightarrow> useDailyRotation fo = Undefined) \<and>
         (enableConsoleLogging options = Undefined \<longrightarrow> enableConsoleLogging fo = Undefined) \<and>
         (prettyPrint options = Undefined \<longrightarrow> prettyPrint fo = Undefined) \<and>
         (colorize options = Undefined \<longrightarrow> colorize fo = Undefined) \<and>
         (timestampFormat options = Undefined \<longrightarrow> timestampFormat fo = Undefined) \<and>
         (locale' options = Undefined \<longrightarrow> locale' fo = Undefined) \<and>
         (silent options = Undefined \<longrightarrow> silent fo = Undefined) \<and>
         (handleExceptions options = Undefined \<longrightarrow> handleExceptions fo = Undefined) \<and>
         (handleRejections options = Undefined \<longrightarrow> handleRejections fo = Undefined) \<and>
         (customTransports options = Undefined \<longrightarrow> customTransports fo = Undefined) \<and>
         (customFormat options = Undefined \<longrightarrow> customFormat fo = Undefined)"
  using assms by (auto simp: finalOptions_def bindR_def split: sum.splits)

theorem explicit_undefined_overrides_witness:
  "\<exists>t (fo :: (unit, unit) MergedLoggerOptions).
     defaultOptions = Inr t \<and>
     finalOptions ''/srv'' (t development)
       (emptyOptions \<lparr> level := Undefined, enableFileLogging := Undefined \<rparr>) = Inr fo \<and>
     level (t development) = Value debug \<and> level fo = Undefined \<and>
     enableFileLogging (t development) = Value True \<and> enableFileLogging fo = Undefined"
proof -
  obtain t :: "Environment \<Rightarrow> (unit, unit) LoggerOptions" where t: "defaultOptions = Inr t"
    using defaultOptions_loaded by blast
  obtain fo where fo: "finalOptions ''/srv'' (t development)
      (emptyOptions \<lparr> level := Undefined, enableFileLogging := Undefined \<rparr>) = Inr fo"
    using finalOptions_total by blast
  have d: "level (t development) = Value debug" "enableFileLogging (t development) = Value True"
    using t by (auto simp: defaultOptions_def bindR_def MB_def createBytes_def emptyOptions_def)
  from explicit_undefined_overrides [OF fo]
  have "level fo = Undefined" "enableFileLogging fo = Undefined"
    by simp_all
  with t fo d show ?thesis by blast
qed

section \<open>Transports: properties\<close>

lemma resolveOptions_final:
  assumes "resolveOptions c env options = Inr fo"
  shows "\<exists>d. finalOptions c d options = Inr fo"
  using assms
  by (auto simp: resolveOptions_def bindR_def split: sum.splits option.splits)

text \<open>
  Claim C2. Whenever \<^verbatim>\<open>createLogger\<close> returns a logger, the kinds of the transports of that
  logger are, for the configuration resolved for the call and in this order: the console
  sink if console logging is on; then, if file logging is on, the rotated file (daily
  rotation on) or the combined file (off), the error file if the separate error log is
  on, the warning file if the separate warning log is on; then the caller's transports,
  each as it was given and in the caller's order.
\<close>

theorem transport_order:
  fixes options :: "('t, 'f) LoggerOptions"
  assumes "createLogger fsys p fs options = (out, fs', Inr lg)"
  shows "\<exists>fo. resolveOptions (cwd p) (ambientEnvironment p) options = Inr fo \<and>
           map sinkKind (logger_transports lg) =
             (if truthy (get (enableConsoleLogging fo)) then [ConsoleSink] else []) @
             (if truthy (get (enableFileLogging fo)) then
                [if truthy (get (useDailyRotation fo)) then RotatedFileSink
                 else CombinedFileSink] @
                (if truthy (get (separateErrorLog fo)) then [ErrorFileSink] else []) @
                (if truthy (get (separateWarnLog fo)) then [WarningFileSink] else [])
              else []) @
             map CustomSink (callerSinks fo)"
proof -
  obtain t :: "Environment \<Rightarrow> ('t, 'f) LoggerOptions" where t: "defaultOptions = Inr t"
    using defaultOptions_loaded by blast
  have "\<exists>fo. resolveOptions (cwd p) (ambientEnvironment p) options = Inr fo \<and>
          logger_transports lg = transports (cwd p) fo"
  proof (cases "isValidEnvironment (ambientEnvironment p)")
    case None
    with assms show ?thesis
      by (simp add: createLogger_def t ambientEnvironment_def Let_def)
  next
    case (Some e)
    obtain fo where fo: "finalOptions (cwd p) (t e) options = Inr fo"
      using finalOptions_total by blast
    have r: "resolveOptions (cwd p) (ambientEnvironment p) options = Inr fo"
      by (simp add: resolveOptions_def bindR_def t Some fo)
    from Some have "isValidEnvironment
        (case NODE_ENV p of None \<Rightarrow> ''development''
         | Some v \<Rightarrow> if v \<noteq> [] then v else ''development'') = Some e"
      by (simp add: ambientEnvironment_def)
    with assms have "logger_transports lg = transports (cwd p) fo"
      by (auto simp: createLogger_def t fo Let_def split: sum.splits error.splits if_splits)
    with r show ?thesis by blast
  qed
  then obtain fo where fo: "resolveOptions (cwd p) (ambientEnvironment p) options = Inr fo"
    and tr: "logger_transports lg = transports (cwd p) fo"
    by blast
  have "map sinkKind (transports (cwd p) fo) =
             (if truthy (get (enableConsoleLogging fo)) then [ConsoleSink] else []) @
             (if truthy (get (enableFileLogging fo)) then
                [if truthy (get (useDailyRotation fo)) then RotatedFileSink
                 else CombinedFileSink] @
                (if truthy (get (separateErrorLog fo)) then [ErrorFileSink] else []) @
                (if truthy (get (separateWarnLog fo)) then [WarningFileSink] else [])
              else []) @
             map CustomSink (callerSinks fo)"
    by (simp add: transports_def fileOptions_def callerSinks_def split: option.split)
  with fo tr show ?thesis by auto
qed

theorem transport_order_witness:
  "\<exists>lg. createLogger growingFs \<lparr> NODE_ENV = Some ''development'', cwd = ''/srv'' \<rparr> []
           (emptyOptions \<lparr> customTransports := Value [7, 3 :: nat] \<rparr> :: (nat, unit) LoggerOptions) =
         ([], [''/srv/logs/app''], Inr lg) \<and>
        map sinkKind (logger_transports lg) =
          [ConsoleSink, CombinedFileSink, ErrorFileSink, WarningFileSink,
           CustomSink 7, CustomSink 3]"
proof -
  let ?p = "\<lparr> NODE_ENV = Some ''development'', cwd = ''/srv'' \<rparr>"
  let ?o = "emptyOptions \<lparr> customTransports := Value [7, 3 :: nat] \<rparr> :: (nat, unit) LoggerOptions"
  have "\<exists>lg. createLogger growingFs ?p [] ?o = ([], [''/srv/logs/app''], Inr lg)"
    by (simp add: createLogger_def defaultOptions_def bindR_def MB_def createBytes_def
        isValidEnvironment_def finalOptions_def emptyOptions_def safeLogDirectory_def
        getDefaultLogPath_def joinSafePaths_def createSafePath_def path_join_def
        path_normalize_def normalizeString_def path_isAbsolute_def logDir_def growingFs_def
        Let_def)
  then obtain lg where lg: "createLogger growingFs ?p [] ?o = ([], [''/srv/logs/app''], Inr lg)"
    by blast
  from transport_order [OF lg] obtain fo where
    fo: "resolveOptions (cwd ?p) (ambientEnvironment ?p) ?o = Inr fo" and
    m: "map sinkKind (logger_transports lg) =
             (if truthy (get (enableConsoleLogging fo)) then [ConsoleSink] else []) @
             (if truthy (get (enableFileLogging fo)) then
                [if truthy (get (useDailyRotation fo)) then RotatedFileSink
                 else CombinedFileSink] @
                (if truthy (get (separateErrorLog fo)) then [ErrorFileSink] else []) @
                (if truthy (get (separateWarnLog fo)) then [WarningFileSink] else [])
              else []) @
             map CustomSink (callerSinks fo)"
    by blast
  from fo have "truthy (get (enableConsoleLogging fo))" "truthy (get (enableFileLogging fo))"
    "\<not> truthy (get (useDailyRotation fo))" "truthy (get (separateErrorLog fo))"
    "truthy (get (separateWarnLog fo))" "callerSinks fo = [7, 3]"
    by (auto simp: resolveOptions_def ambientEnvironment_def defaultOptions_def bindR_def
        MB_def createBytes_def isValidEnvironment_def finalOptions_def emptyOptions_def
        callerSinks_def split: sum.splits)
  with m lg show ?thesis by simp
qed

section \<open>The factory: properties\<close>

text \<open>
  Claim C3, as the specification states it, fails at the empty string: it is none of the
  three environment names, and yet \<^verbatim>\<open>createLogger\<close> returns a logger.
\<close>

theorem empty_environment_accepted:
  "'''' \<notin> {''development'', ''production'', ''test''} \<and>
   \<not> isl (snd (snd (createLogger growingFs \<lparr> NODE_ENV = Some '''', cwd = ''/srv'' \<rparr> []
                  (emptyOptions :: (unit, unit) LoggerOptions))))"
proof -
  obtain t :: "Environment \<Rightarrow> (unit, unit) LoggerOptions" where t: "defaultOptions = Inr t"
    using defaultOptions_loaded by blast
  obtain fo where fo: "finalOptions ''/srv'' (t development) emptyOptions = Inr fo"
    using finalOptions_total by blast
  show ?thesis
    by (simp add: createLogger_def t fo isValidEnvironment_def growingFs_def Let_def)
qed

text \<open>
  Claim C3, amended. For every environment string that is not empty and is none of
  \<^verbatim>\<open>development\<close>, \<^verbatim>\<open>production\<close>, \<^verbatim>\<open>test\<close>, \<^verbatim>\<open>createLogger\<close> throws an error whose message
  is ``Invalid environment: '' followed by the string, writes nothing and leaves the file
  system alone. When \<^verbatim>\<open>NODE_ENV\<close> is absent or empty, \<^verbatim>\<open>createLogger\<close> writes the warning
  and then does what it does for \<^verbatim>\<open>development\<close>; and for \<^verbatim>\<open>development\<close> it throws only
  what \<^verbatim>\<open>mkdirSync\<close> threw for a directory that did not exist.
\<close>

theorem invalid_environment:
  "(env \<noteq> [] \<and> env \<notin> {''development'', ''production'', ''test''} \<longrightarrow>
      createLogger fsys \<lparr> NODE_ENV = Some env, cwd = c \<rparr> fs options =
        ([], fs, Inl (Error (''Invalid environment: '' @ env)))) \<and>
   (ne = None \<or> ne = Some [] \<longrightarrow>
      createLogger fsys \<lparr> NODE_ENV = ne, cwd = c \<rparr> fs options =
        (case createLogger fsys \<lparr> NODE_ENV = Some ''development'', cwd = c \<rparr> fs options of
           (out, r) \<Rightarrow>
             (console_warn ''NODE_ENV not set, defaulting to development environment'' # out, r))) \<and>
   (\<forall>out fs' e.
      createLogger fsys \<lparr> NODE_ENV = Some ''development'', cwd = c \<rparr> fs options
        = (out, fs', Inl e) \<longrightarrow>
      (\<exists>dir. \<not> existsSync fsys fs dir \<and> mkdirSync fsys fs dir = Inl e))"
proof -
  obtain t :: "Environment \<Rightarrow> ('b, 'c) LoggerOptions" where t: "defaultOptions = Inr t"
    using defaultOptions_loaded by blast
  obtain fo where fo: "finalOptions c (t development) options = Inr fo"
    using finalOptions_total by blast
  have 1: "env \<noteq> [] \<and> env \<notin> {''development'', ''production'', ''test''} \<longrightarrow>
      createLogger fsys \<lparr> NODE_ENV = Some env, cwd = c \<rparr> fs options =
        ([], fs, Inl (Error (''Invalid environment: '' @ env)))"
    by (auto simp: createLogger_def t isValidEnvironment_def)
  have 2: "ne = None \<or> ne = Some [] \<longrightarrow>
      createLogger fsys \<lparr> NODE_ENV = ne, cwd = c \<rparr> fs options =
        (case createLogger fsys \<lparr> NODE_ENV = Some ''development'', cwd = c \<rparr> fs options of
           (out, r) \<Rightarrow>
             (console_warn ''NODE_ENV not set, defaulting to development environment'' # out, r))"
    by (auto simp: createLogger_def t fo isValidEnvironment_def Let_def
        split: sum.splits error.splits)
  have 3: "\<forall>out fs' e.
      createLogger fsys \<lparr> NODE_ENV = Some ''development'', cwd = c \<rparr> fs options
        = (out, fs', Inl e) \<longrightarrow>
      (\<exists>dir. \<not> existsSync fsys fs dir \<and> mkdirSync fsys fs dir = Inl e)"
    by (auto simp: createLogger_def t fo isValidEnvironment_def Let_def
        split: sum.splits error.splits if_splits)
  from 1 2 3 show ?thesis by blast
qed

theorem invalid_environment_witness:
  "createLogger growingFs \<lparr> NODE_ENV = Some ''staging'', cwd = ''/srv'' \<rparr> []
       (emptyOptions :: (unit, unit) LoggerOptions) =
     ([], [], Inl (Error ''Invalid environment: staging'')) \<and>
   createLogger growingFs \<lparr> NODE_ENV = None, cwd = ''/srv'' \<rparr> []
       (emptyOptions :: (unit, unit) LoggerOptions) =
     (case createLogger growingFs \<lparr> NODE_ENV = Some ''development'', cwd = ''/srv'' \<rparr> []
             emptyOptions of
        (out, r) \<Rightarrow>
          (console_warn ''NODE_ENV not set, defaulting to development environment'' # out, r)) \<and>
   (\<exists>dir. mkdirSync readOnlyFs () dir =
            Inl (Error ''EACCES: permission denied, mkdir /srv/logs/app''))"
proof -
  have "createLogger readOnlyFs \<lparr> NODE_ENV = Some ''development'', cwd = ''/srv'' \<rparr> ()
          (emptyOptions :: (unit, unit) LoggerOptions) =
        ([console_error
            ''Failed to create log directory: EACCES: permission denied, mkdir /srv/logs/app''],
         (), Inl (Error ''EACCES: permission denied, mkdir /srv/logs/app''))"
    by (simp add: createLogger_def defaultOptions_def bindR_def MB_def createBytes_def
        isValidEnvironment_def finalOptions_def emptyOptions_def safeLogDirectory_def
        getDefaultLogPath_def joinSafePaths_def createSafePath_def path_join_def path_normalize_def
        normalizeString_def path_isAbsolute_def logDir_def readOnlyFs_def Let_def)
  with invalid_environment [where env = "''staging''" and ne = None and fsys = growingFs
      and c = "''/srv''" and fs = "[]" and options = "emptyOptions :: (unit, unit) LoggerOptions"]
    invalid_environment [where env = "''staging''" and ne = None and fsys = readOnlyFs
      and c = "''/srv''" and fs = "()" and options = "emptyOptions :: (unit, unit) LoggerOptions"]
  show ?thesis by auto
qed

section \<open>The console format: properties\<close>



section \<open>Paths: properties\<close>

subsection \<open>Cutting and gluing\<close>

lemma splitSegs_nonempty: "splitSegs s \<noteq> []"
  by (induction s) (auto split: list.split)

lemma splitSegs_Cons_noslash:
  "c \<noteq> CHR ''/'' \<Longrightarrow> splitSegs (c # cs) = (c # hd (splitSegs cs)) # tl (splitSegs cs)"
  using splitSegs_nonempty [of cs] by (cases "splitSegs cs") auto

lemma splitSegs_append_slash: "splitSegs (a @ CHR ''/'' # b) = splitSegs a @ splitSegs b"
proof (induction a)
  case Nil
  then show ?case by simp
next
  case (Cons c a)
  show ?case
  proof (cases "c = CHR ''/''")
    case True
    with Cons show ?thesis by simp
  next
    case False
    obtain s ss where s: "splitSegs a = s # ss"
      using splitSegs_nonempty [of a] by (cases "splitSegs a") auto
    with False Cons show ?thesis by simp
  qed
qed

lemma splitSegs_noslash: "CHR ''/'' \<notin> set s \<Longrightarrow> splitSegs s = [s]"
  by (induction s) auto

lemma splitSegs_segments: "t \<in> set (splitSegs s) \<Longrightarrow> CHR ''/'' \<notin> set t"
proof (induction s arbitrary: t)
  case Nil
  then show ?case by simp
next
  case (Cons c s)
  then show ?case
    by (cases "splitSegs s") (auto split: if_splits)
qed

lemma splitSegs_joinWith:
  "segs \<noteq> [] \<Longrightarrow> \<forall>t\<in>set segs. CHR ''/'' \<notin> set t \<Longrightarrow> splitSegs (joinWith ''/'' segs) = segs"
proof (induction segs)
  case Nil
  then show ?case by simp
next
  case (Cons s ss)
  show ?case
  proof (cases ss)
    case Nil
    with Cons.prems show ?thesis by (simp add: splitSegs_noslash)
  next
    case (Cons t ts)
    have "splitSegs (s @ CHR ''/'' # joinWith ''/'' (t # ts)) =
          splitSegs s @ splitSegs (joinWith ''/'' (t # ts))"
      by (rule splitSegs_append_slash)
    with Cons Cons.IH Cons.prems show ?thesis by (simp add: splitSegs_noslash)
  qed
qed

lemma joinWith_nonempty: "segs \<noteq> [] \<Longrightarrow> last segs \<noteq> [] \<Longrightarrow> joinWith sep segs \<noteq> []"
  by (induction sep segs rule: joinWith.induct) auto

lemma joinWith_last:
  "segs \<noteq> [] \<Longrightarrow> last segs \<noteq> [] \<Longrightarrow> last (joinWith sep segs) = last (last segs)"
proof (induction sep segs rule: joinWith.induct)
  case (3 sep s t ss)
  then have "joinWith sep (t # ss) \<noteq> []"
    using joinWith_nonempty [of "t # ss" sep] by simp
  with 3 show ?case by simp
qed auto

lemma joinWith_snoc:
  "segs \<noteq> [] \<Longrightarrow> joinWith sep (segs @ [s]) = joinWith sep segs @ sep @ s"
  by (induction sep segs rule: joinWith.induct) auto

lemma joinWith_snoc_append:
  "joinWith sep (segs @ [s]) @ t = joinWith sep (segs @ [s @ t])"
  by (induction sep segs rule: joinWith.induct) auto

subsection \<open>The scan\<close>

lemma normSegs_append:
  "normSegs a res (xs @ ys) = normSegs a (normSegs a res xs) ys"
  by (induction xs arbitrary: res) auto

lemma normSegs_plain: "list_all plainSeg xs \<Longrightarrow> normSegs a res xs = res @ xs"
  by (induction xs arbitrary: res) (auto simp: plainSeg_def)

lemma list_all_butlast: "list_all P xs \<Longrightarrow> list_all P (butlast xs)"
  by (induction xs) auto

lemma normSegs_False_plain:
  "list_all plainSeg res \<Longrightarrow> \<forall>t\<in>set xs. CHR ''/'' \<notin> set t \<Longrightarrow>
   list_all plainSeg (normSegs False res xs)"
proof (induction xs arbitrary: res)
  case Nil
  then show ?case by simp
next
  case (Cons x xs)
  then show ?case
    by (auto simp: list_all_butlast) (auto simp: plainSeg_def)
qed

lemma normSegs_segments:
  "list_all keptSeg res \<Longrightarrow> \<forall>t\<in>set xs. CHR ''/'' \<notin> set t \<Longrightarrow>
   list_all keptSeg (normSegs a res xs)"
proof (induction xs arbitrary: res)
  case Nil
  then show ?case by simp
next
  case (Cons x xs)
  then show ?case
    by (auto simp: list_all_butlast) (auto simp: keptSeg_def)
qed

subsection \<open>Normal absolute paths\<close>

lemma isAbsolute_iff: "path_isAbsolute p \<longleftrightarrow> (\<exists>r. p = CHR ''/'' # r)"
  by (cases p) (auto simp: path_isAbsolute_def)

lemma scan_plain: "list_all plainSeg (normSegs False [] (splitSegs x))"
  by (rule normSegs_False_plain) (auto dest: splitSegs_segments)

lemma scan_kept: "list_all keptSeg (normSegs a [] (splitSegs x))"
  by (rule normSegs_segments) (auto dest: splitSegs_segments)

lemma plain_joinWith_nonempty:
  "list_all plainSeg S \<Longrightarrow> S \<noteq> [] \<Longrightarrow> joinWith ''/'' S \<noteq> []"
  by (rule joinWith_nonempty) (auto simp: list_all_iff plainSeg_def)

lemma plain_joinWith_last:
  "list_all plainSeg S \<Longrightarrow> S \<noteq> [] \<Longrightarrow> last (joinWith ''/'' S) \<noteq> CHR ''/''"
proof -
  assume S: "list_all plainSeg S" "S \<noteq> []"
  then have l: "plainSeg (last S)" by (simp add: list_all_iff)
  then have "last S \<noteq> []" by (simp add: plainSeg_def)
  with S have "last (joinWith ''/'' S) = last (last S)" by (simp add: joinWith_last)
  moreover from l have "last (last S) \<noteq> CHR ''/''"
    by (auto simp: plainSeg_def dest: last_in_set)
  ultimately show ?thesis by simp
qed

lemma normalize_absolute:
  assumes "path_isAbsolute x"
  shows "path_normalize x = absRender (normSegs False [] (splitSegs x)) (last x = CHR ''/'')"
proof -
  obtain r where x: "x = CHR ''/'' # r" using assms by (auto simp: isAbsolute_iff)
  let ?S = "normSegs False [] (splitSegs x)"
  have "?S \<noteq> [] \<Longrightarrow> joinWith ''/'' ?S \<noteq> []"
    using plain_joinWith_nonempty [OF scan_plain] by blast
  then show ?thesis
    by (auto simp: path_normalize_def normalizeString_def absRender_def Let_def x)
qed

lemma isAbsolute_absRender: "path_isAbsolute (absRender S tr)"
  by (simp add: absRender_def path_isAbsolute_def)

lemma scan_absRender:
  assumes "list_all plainSeg S"
  shows "normSegs False [] (splitSegs (absRender S tr)) = S"
proof (cases "S = []")
  case True
  then show ?thesis by (simp add: absRender_def)
next
  case False
  have ns: "\<forall>t\<in>set S. CHR ''/'' \<notin> set t"
    using assms by (simp add: list_all_iff plainSeg_def)
  have j: "splitSegs (joinWith ''/'' S) = S"
    using False ns by (rule splitSegs_joinWith)
  have "splitSegs (joinWith ''/'' S @ CHR ''/'' # []) = S @ [[]]"
    using splitSegs_append_slash [of "joinWith ''/'' S" "[]"] j by simp
  with False j assms show ?thesis
    by (simp add: absRender_def normSegs_append normSegs_plain)
qed

lemma last_absRender:
  assumes "list_all plainSeg S"
  shows "(last (absRender S tr) = CHR ''/'') \<longleftrightarrow> (S = [] \<or> tr)"
proof (cases "S = []")
  case True
  then show ?thesis by (simp add: absRender_def)
next
  case False
  with assms have "joinWith ''/'' S \<noteq> []" "last (joinWith ''/'' S) \<noteq> CHR ''/''"
    by (simp_all add: plain_joinWith_nonempty plain_joinWith_last)
  with False show ?thesis by (simp add: absRender_def)
qed

lemma normalize_absRender:
  assumes "list_all plainSeg S"
  shows "path_normalize (absRender S tr) = absRender S tr"
proof -
  have "path_normalize (absRender S tr) = absRender S (S = [] \<or> tr)"
    using assms
    by (simp add: normalize_absolute isAbsolute_absRender scan_absRender last_absRender)
  then show ?thesis by (auto simp: absRender_def)
qed

lemma normalize_nonempty: "path_normalize x \<noteq> []"
  by (auto simp: path_normalize_def Let_def)

lemma joinWith_hd:
  "S \<noteq> [] \<Longrightarrow> hd S \<noteq> [] \<Longrightarrow> hd (joinWith sep S) = hd (hd S)"
  by (induction sep S rule: joinWith.induct) auto

lemma kept_joinWith:
  assumes "list_all keptSeg S" "S \<noteq> []"
  shows "joinWith ''/'' S \<noteq> [] \<and> hd (joinWith ''/'' S) \<noteq> CHR ''/''"
proof -
  from assms have "keptSeg (hd S)" "keptSeg (last S)"
    by (simp_all add: list_all_iff)
  then have n: "hd S \<noteq> []" "last S \<noteq> []" and s: "CHR ''/'' \<notin> set (hd S)"
    by (simp_all add: keptSeg_def)
  from n(1) s have "hd (hd S) \<noteq> CHR ''/''"
    by (cases "hd S") auto
  with assms(2) n show ?thesis
    by (simp add: joinWith_nonempty joinWith_hd)
qed

lemma normalize_relative:
  assumes "\<not> path_isAbsolute x"
  shows "\<not> path_isAbsolute (path_normalize x)"
proof (cases "x = []")
  case True
  then show ?thesis by (simp add: path_normalize_def path_isAbsolute_def)
next
  case False
  with assms have h: "hd x \<noteq> CHR ''/''" by (cases x) (auto simp: path_isAbsolute_def)
  let ?S = "normSegs True [] (splitSegs x)"
  have k: "list_all keptSeg ?S" by (rule scan_kept)
  show ?thesis
  proof (cases "?S = []")
    case True
    with False h show ?thesis
      by (simp add: path_normalize_def normalizeString_def path_isAbsolute_def Let_def)
  next
    case S: False
    from kept_joinWith [OF k S] obtain a r where "joinWith ''/'' ?S = a # r" "a \<noteq> CHR ''/''"
      by (cases "joinWith ''/'' ?S") auto
    with False h show ?thesis
      by (simp add: path_normalize_def normalizeString_def path_isAbsolute_def Let_def)
  qed
qed

lemma resolve_relative:
  assumes "path_isAbsolute c" "n \<noteq> []" "\<not> path_isAbsolute n"
  shows "path_resolve c [c, n] =
         absRender (normSegs False [] (splitSegs (c @ ''/'' @ n @ ''/''))) False"
proof -
  from assms(1) have c: "c \<noteq> []" by (auto simp: isAbsolute_iff)
  let ?S = "normSegs False [] (splitSegs (c @ ''/'' @ n @ ''/''))"
  have "?S \<noteq> [] \<Longrightarrow> joinWith ''/'' ?S \<noteq> []"
    using plain_joinWith_nonempty [OF scan_plain] by blast
  with assms c show ?thesis
    by (auto simp: path_resolve_def normalizeString_def absRender_def)
qed

lemma createSafePath_normal:
  assumes "path_isAbsolute c"
  shows "\<exists>S tr. list_all plainSeg S \<and> createSafePath c x = absRender S tr"
proof (cases "path_isAbsolute x")
  case True
  then have "path_isAbsolute (path_normalize x)"
    by (simp add: normalize_absolute isAbsolute_absRender)
  with True have "createSafePath c x =
      absRender (normSegs False [] (splitSegs x)) (last x = CHR ''/'')"
    by (simp add: createSafePath_def normalize_absolute)
  with scan_plain show ?thesis by blast
next
  case False
  then have "\<not> path_isAbsolute (path_normalize x)" by (rule normalize_relative)
  with assms have "createSafePath c x =
      absRender (normSegs False [] (splitSegs (c @ ''/'' @ path_normalize x @ ''/''))) False"
    by (simp add: createSafePath_def resolve_relative normalize_nonempty)
  with scan_plain show ?thesis by blast
qed

lemma createSafePath_fixed:
  "list_all plainSeg S \<Longrightarrow> createSafePath c (absRender S tr) = absRender S tr"
  by (simp add: createSafePath_def normalize_absRender isAbsolute_absRender)

text \<open>
  Claim C9. With an absolute working directory (what \<^verbatim>\<open>process.cwd()\<close> returns),
  \<^verbatim>\<open>createSafePath\<close> applied to its own result gives that result again, for every string;
  the result is absolute and is left as it is by \<^verbatim>\<open>path.normalize\<close>; and an input whose
  normal form is not absolute is resolved against the working directory. The function is
  total: it has no failing case.
\<close>

theorem createSafePath_idempotent:
  assumes "path_isAbsolute c"
  shows "createSafePath c (createSafePath c x) = createSafePath c x \<and>
         path_isAbsolute (createSafePath c x) \<and>
         path_normalize (createSafePath c x) = createSafePath c x \<and>
         (\<not> path_isAbsolute (path_normalize x) \<longrightarrow>
            createSafePath c x = path_resolve c [c, path_normalize x])"
proof -
  obtain S tr where S: "list_all plainSeg S" "createSafePath c x = absRender S tr"
    using createSafePath_normal [OF assms] by blast
  have "\<not> path_isAbsolute (path_normalize x) \<longrightarrow> createSafePath c x = path_resolve c [c, path_normalize x]"
    by (simp add: createSafePath_def)
  with S show ?thesis
    by (simp add: createSafePath_fixed isAbsolute_absRender normalize_absRender)
qed

theorem createSafePath_idempotent_witness:
  "path_isAbsolute ''/srv/app'' \<and>
   createSafePath ''/srv/app'' ''./logs/../out//x/'' = ''/srv/app/out/x'' \<and>
   createSafePath ''/srv/app'' ''/srv/app/out/x'' = ''/srv/app/out/x'' \<and>
   path_normalize ''/srv/app/out/x'' = ''/srv/app/out/x''"
proof -
  have a: "path_isAbsolute ''/srv/app''" by (simp add: path_isAbsolute_def)
  have v: "createSafePath ''/srv/app'' ''./logs/../out//x/'' = ''/srv/app/out/x''"
    by (simp add: createSafePath_def path_normalize_def normalizeString_def path_isAbsolute_def
        path_resolve_def)
  from createSafePath_idempotent [OF a, of "''./logs/../out//x/''"] v
  show ?thesis using a by simp
qed

subsection \<open>Joining onto a normal absolute path\<close>

lemma joinWith_append:
  "S \<noteq> [] \<Longrightarrow> T \<noteq> [] \<Longrightarrow> joinWith sep (S @ T) = joinWith sep S @ sep @ joinWith sep T"
proof (induction sep S rule: joinWith.induct)
  case (2 sep s)
  then show ?case by (cases T) auto
qed auto

lemma scan_absolute_append:
  "normSegs False [] (splitSegs (a @ CHR ''/'' # b)) =
   normSegs False (normSegs False [] (splitSegs a)) (splitSegs b)"
  by (simp add: splitSegs_append_slash normSegs_append)

lemma normalize_after_normalize:
  assumes "path_isAbsolute a" "b \<noteq> []"
  shows "path_normalize (path_normalize a @ CHR ''/'' # b) = path_normalize (a @ CHR ''/'' # b)"
proof -
  let ?S = "normSegs False [] (splitSegs a)"
  let ?tr = "last a = CHR ''/''"
  have n: "path_normalize a = absRender ?S ?tr"
    using assms(1) by (rule normalize_absolute)
  have abs1: "path_isAbsolute (absRender ?S ?tr @ CHR ''/'' # b)"
    by (simp add: absRender_def path_isAbsolute_def)
  have abs2: "path_isAbsolute (a @ CHR ''/'' # b)"
    using assms(1) by (auto simp: isAbsolute_iff)
  have "path_normalize (absRender ?S ?tr @ CHR ''/'' # b) =
        absRender (normSegs False ?S (splitSegs b)) (last b = CHR ''/'')"
    using assms(2)
    by (simp add: normalize_absolute [OF abs1] scan_absolute_append scan_absRender scan_plain)
  moreover have "path_normalize (a @ CHR ''/'' # b) =
        absRender (normSegs False ?S (splitSegs b)) (last b = CHR ''/'')"
    using assms(2) by (simp add: normalize_absolute [OF abs2] scan_absolute_append)
  ultimately show ?thesis by (simp add: n)
qed

lemma join_plain:
  assumes "list_all plainSeg S" "plainSeg N"
  shows "path_join [absRender S tr, N] = absRender (S @ [N]) False"
proof -
  have N: "N \<noteq> []" "CHR ''/'' \<notin> set N" "last N \<noteq> CHR ''/''"
    using assms(2) by (auto simp: plainSeg_def dest: last_in_set)
  have r: "absRender S tr \<noteq> []" by (simp add: absRender_def)
  have abs: "path_isAbsolute (absRender S tr @ CHR ''/'' # N)"
    by (simp add: absRender_def path_isAbsolute_def)
  have pl: "normSegs False S [N] = S @ [N]"
    using assms(2) by (intro normSegs_plain) simp
  have sN: "splitSegs N = [N]"
    using N(2) by (rule splitSegs_noslash)
  have sc: "normSegs False [] (splitSegs (absRender S tr)) = S"
    using assms(1) by (rule scan_absRender)
  have "normSegs False [] (splitSegs (absRender S tr @ CHR ''/'' # N)) = S @ [N]"
    unfolding scan_absolute_append sc sN by (fact pl)
  with N r show ?thesis
    by (simp add: path_join_def normalize_absolute [OF abs])
qed

lemma plainSeg_append:
  assumes "plainSeg N" "CHR ''/'' \<notin> set sfx"
  shows "plainSeg (N @ sfx)"
proof -
  from assms(1) have N: "N \<noteq> []" "N \<noteq> ''.''" "N \<noteq> ''..''" "CHR ''/'' \<notin> set N"
    by (simp_all add: plainSeg_def)
  have "N @ sfx \<noteq> ''.''" "N @ sfx \<noteq> ''..''"
    using N by (auto simp: append_eq_Cons_conv)
  with N assms(2) show ?thesis by (simp add: plainSeg_def)
qed

lemma dirPrefix_absRender:
  assumes "list_all plainSeg S" "T \<noteq> []"
  shows "dirPrefix (absRender S tr) @ ''/'' @ joinWith ''/'' T = absRender (S @ T) False"
proof (cases "S = []")
  case True
  with assms(2) show ?thesis by (simp add: absRender_def dirPrefix_def)
next
  case False
  with assms(1) have "joinWith ''/'' S \<noteq> []" "last (joinWith ''/'' S) \<noteq> CHR ''/''"
    by (simp_all add: plain_joinWith_nonempty plain_joinWith_last)
  with False assms(2) show ?thesis
    by (simp add: absRender_def dirPrefix_def joinWith_append butlast_append)
qed

lemma dirPrefix_normal:
  assumes "path_isAbsolute D" "path_normalize D = D" "last D \<noteq> CHR ''/''"
  shows "dirPrefix D = D"
  using assms by (simp add: dirPrefix_def)

subsection \<open>The default log directory\<close>

lemma createSafePath_normalized:
  assumes "path_isAbsolute y"
  shows "createSafePath c (path_normalize y) = path_normalize y"
proof -
  have "path_normalize y = absRender (normSegs False [] (splitSegs y)) (last y = CHR ''/'')"
    using assms by (rule normalize_absolute)
  then show ?thesis by (simp add: createSafePath_fixed scan_plain)
qed

lemma createSafePath_absolute: "path_isAbsolute x \<Longrightarrow> createSafePath c x = path_normalize x"
  by (simp add: createSafePath_def normalize_absolute isAbsolute_absRender)

lemma normalize_normalize_absolute: "path_isAbsolute y \<Longrightarrow> path_normalize (path_normalize y) = path_normalize y"
  by (simp add: normalize_absolute normalize_absRender scan_plain)

lemma getDefaultLogPath_join:
  assumes "path_isAbsolute c"
  shows "getDefaultLogPath c = path_join [c, ''logs'']" and "getDefaultLogPath c = path_normalize (c @ ''/logs'')"
proof -
  from assms have c: "c \<noteq> []" by (auto simp: isAbsolute_iff)
  have abs: "path_isAbsolute (c @ ''/logs'')" using assms by (auto simp: isAbsolute_iff)
  have "path_join [createSafePath c c, ''logs''] = path_normalize (path_normalize c @ CHR ''/'' # ''logs'')"
    using assms by (simp add: path_join_def createSafePath_absolute normalize_nonempty)
  also have "\<dots> = path_normalize (c @ CHR ''/'' # ''logs'')"
    using assms by (rule normalize_after_normalize) simp
  finally have j: "path_join [createSafePath c c, ''logs''] = path_normalize (c @ ''/logs'')" by simp
  show "getDefaultLogPath c = path_normalize (c @ ''/logs'')"
    by (simp only: getDefaultLogPath_def joinSafePaths_def j createSafePath_normalized [OF abs])
  then show "getDefaultLogPath c = path_join [c, ''logs'']"
    using c by (simp add: path_join_def)
qed

lemma logDir_default:
  assumes "path_isAbsolute c"
  shows "joinSafePaths c [getDefaultLogPath c, N] = path_join [c, ''logs'', N]"
proof -
  from assms have c: "c \<noteq> []" by (auto simp: isAbsolute_iff)
  have abs: "path_isAbsolute (c @ ''/logs'')" using assms by (auto simp: isAbsolute_iff)
  have g: "getDefaultLogPath c = path_normalize (c @ ''/logs'')"
    using assms by (rule getDefaultLogPath_join)
  show ?thesis
  proof (cases "N = []")
    case True
    have "path_join [getDefaultLogPath c, N] = path_normalize (c @ ''/logs'')"
      using True by (simp add: path_join_def g normalize_nonempty normalize_normalize_absolute [OF abs])
    moreover have "path_join [c, ''logs'', N] = path_normalize (c @ ''/logs'')"
      using True c by (simp add: path_join_def)
    ultimately show ?thesis
      by (simp only: joinSafePaths_def createSafePath_normalized [OF abs])
  next
    case False
    have abs2: "path_isAbsolute ((c @ ''/logs'') @ CHR ''/'' # N)"
      using assms by (auto simp: isAbsolute_iff)
    have "path_join [getDefaultLogPath c, N] = path_normalize (path_normalize (c @ ''/logs'') @ CHR ''/'' # N)"
      using False by (simp add: path_join_def g normalize_nonempty)
    also have "\<dots> = path_normalize ((c @ ''/logs'') @ CHR ''/'' # N)"
      using abs False by (rule normalize_after_normalize)
    finally have 1: "path_join [getDefaultLogPath c, N] = path_normalize ((c @ ''/logs'') @ CHR ''/'' # N)" .
    have 2: "path_join [c, ''logs'', N] = path_normalize ((c @ ''/logs'') @ CHR ''/'' # N)"
      using False c by (simp add: path_join_def)
    show ?thesis
      by (simp only: joinSafePaths_def 1 2 createSafePath_normalized [OF abs2])
  qed
qed

lemma finalOptions_fields:
  assumes "finalOptions c d options = Inr fo"
  shows "logName fo = (case get (logName options) of Some n \<Rightarrow> n | None \<Rightarrow> ''app'')"
    and "logDirectory fo = safeLogDirectory c options"
  using assms by (auto simp: finalOptions_def bindR_def split: sum.splits)

text \<open>
  Claim C5, as the specification states it, fails for a caller who supplies the empty
  string as \<^verbatim>\<open>logDirectory\<close>: the merged directory is the default one, not
  \<^verbatim>\<open>createSafePath\<close> of the caller's value.
\<close>

theorem empty_logDirectory_defaulted:
  "map_sum id logDirectory
     (finalOptions ''/srv'' emptyOptions (emptyOptions \<lparr> logDirectory := Value '''' \<rparr>)
        :: (unit, unit) MergedLoggerOptions result) = Inr ''/srv/logs'' \<and>
   createSafePath ''/srv'' '''' = ''/srv''"
  by (simp add: finalOptions_def bindR_def MB_def createBytes_def emptyOptions_def
      safeLogDirectory_def getDefaultLogPath_def joinSafePaths_def createSafePath_def path_join_def
      path_normalize_def normalizeString_def path_isAbsolute_def path_resolve_def)

text \<open>
  Claim C5, amended. The merged configuration takes every property from the caller's
  options when the caller's options hold it and from the environment defaults otherwise;
  \<^verbatim>\<open>logName\<close> is the caller's, or ``app'' when the caller gave none; \<^verbatim>\<open>logDirectory\<close> is the
  default log path when the caller gave none or gave the empty string, and
  \<^verbatim>\<open>createSafePath\<close> of the caller's value otherwise. With an absolute working directory the
  default log path is the join of the working directory and \<^verbatim>\<open>logs\<close>, and with no (or an
  empty) \<^verbatim>\<open>logDirectory\<close> the directory of the log files is the join of the working
  directory, \<^verbatim>\<open>logs\<close> and the log name.
\<close>

theorem merge_precedence:
  assumes "finalOptions c d options = Inr fo"
  shows "logName fo = (case get (logName options) of Some n \<Rightarrow> n | None \<Rightarrow> ''app'') \<and>
         logDirectory fo =
           (case get (logDirectory options) of
              None \<Rightarrow> getDefaultLogPath c
            | Some D \<Rightarrow> if D = [] then getDefaultLogPath c else createSafePath c D) \<and>
         level fo = (if level options = Absent then level d else level options) \<and>
         enableFileLogging fo =
           (if enableFileLogging options = Absent then enableFileLogging d
            else enableFileLogging options) \<and>
         maxFiles fo = (if maxFiles options = Absent then maxFiles d else maxFiles options) \<and>
         separateErrorLog fo =
           (if separateErrorLog options = Absent then separateErrorLog d
            else separateErrorLog options) \<and>
         separateWarnLog fo =
           (if separateWarnLog options = Absent then separateWarnLog d
            else separateWarnLog options) \<and>
         useDailyRotation fo =
           (if useDailyRotation options = Absent then useDailyRotation d
            else useDailyRotation options) \<and>
         enableConsoleLogging fo =
           (if enableConsoleLogging options = Absent then enableConsoleLogging d
            else enableConsoleLogging options) \<and>
         prettyPrint fo =
           (if prettyPrint options = Absent then prettyPrint d else prettyPrint options) \<and>
         colorize fo = (if colorize options = Absent then colorize d else colorize options) \<and>
         timestampFormat fo =
           (if timestampFormat options = Absent then timestampFormat d
            else timestampFormat options) \<and>
         locale' fo = (if locale' options = Absent then locale' d else locale' options) \<and>
         silent fo = (if silent options = Absent then silent d else silent options) \<and>
         handleExceptions fo =
           (if handleExceptions options = Absent then handleExceptions d
            else handleExceptions options) \<and>
         handleRejections fo =
           (if handleRejections options = Absent then handleRejections d
            else handleRejections options) \<and>
         customTransports fo =
           (if customTransports options = Absent then customTransports d
            else customTransports options) \<and>
         customFormat fo =
           (if customFormat options = Absent then customFormat d else customFormat options) \<and>
         (path_isAbsolute c \<longrightarrow> getDefaultLogPath c = path_join [c, ''logs'']) \<and>
         (path_isAbsolute c \<and> (get (logDirectory options) = None \<or> get (logDirectory options) = Some [])
            \<longrightarrow> logDir c fo = path_join [c, ''logs'', logName fo])"
proof -
  have sp: "\<And>a b. spread a b = (if b = Absent then a else b)"
    by (case_tac b) auto
  have 1: "logDirectory fo =
           (case get (logDirectory options) of
              None \<Rightarrow> getDefaultLogPath c
            | Some D \<Rightarrow> if D = [] then getDefaultLogPath c else createSafePath c D)"
    using finalOptions_fields(2) [OF assms] by (simp add: safeLogDirectory_def split: option.split)
  have 2: "path_isAbsolute c \<and> (get (logDirectory options) = None \<or> get (logDirectory options) = Some [])
            \<longrightarrow> logDir c fo = path_join [c, ''logs'', logName fo]"
    using 1 by (auto simp: logDir_def logDir_default)
  have 3: "path_isAbsolute c \<longrightarrow> getDefaultLogPath c = path_join [c, ''logs'']"
    by (simp add: getDefaultLogPath_join)
  have 4: "level fo = spread (level d) (level options)"
    "enableFileLogging fo = spread (enableFileLogging d) (enableFileLogging options)"
    "maxFiles fo = spread (maxFiles d) (maxFiles options)"
    "separateErrorLog fo = spread (separateErrorLog d) (separateErrorLog options)"
    "separateWarnLog fo = spread (separateWarnLog d) (separateWarnLog options)"
    "useDailyRotation fo = spread (useDailyRotation d) (useDailyRotation options)"
    "enableConsoleLogging fo = spread (enableConsoleLogging d) (enableConsoleLogging options)"
    "prettyPrint fo = spread (prettyPrint d) (prettyPrint options)"
    "colorize fo = spread (colorize d) (colorize options)"
    "timestampFormat fo = spread (timestampFormat d) (timestampFormat options)"
    "locale' fo = spread (locale' d) (locale' options)"
    "silent fo = spread (silent d) (silent options)"
    "handleExceptions fo = spread (handleExceptions d) (handleExceptions options)"
    "handleRejections fo = spread (handleRejections d) (handleRejections options)"
    "customTransports fo = spread (customTransports d) (customTransports options)"
    "customFormat fo = spread (customFormat d) (customFormat options)"
    using assms by (auto simp: finalOptions_def bindR_def split: sum.splits)
  from finalOptions_fields(1) [OF assms] 1 2 3 4 show ?thesis
    by (simp add: sp)
qed

theorem merge_precedence_witness:
  "path_isAbsolute ''/srv'' \<and>
   (\<exists>fo :: (unit, unit) MergedLoggerOptions.
      finalOptions ''/srv'' (emptyOptions \<lparr> level := Value debug, maxFiles := Value 5 \<rparr>)
        (emptyOptions \<lparr> logName := Value ''api'', level := Value warn \<rparr>) = Inr fo \<and>
      logName fo = ''api'' \<and> level fo = Value warn \<and> maxFiles fo = Value 5 \<and>
      logDirectory fo = ''/srv/logs'' \<and> logDir ''/srv'' fo = ''/srv/logs/api'')"
proof -
  have a: "path_isAbsolute ''/srv''" by (simp add: path_isAbsolute_def)
  obtain fo :: "(unit, unit) MergedLoggerOptions" where
    fo: "finalOptions ''/srv'' (emptyOptions \<lparr> level := Value debug, maxFiles := Value 5 \<rparr>)
        (emptyOptions \<lparr> logName := Value ''api'', level := Value warn \<rparr>) = Inr fo"
    using finalOptions_total by blast
  have j: "path_join [''/srv'', ''logs''] = ''/srv/logs''" "path_join [''/srv'', ''logs'', ''api''] = ''/srv/logs/api''"
    by (simp_all add: path_join_def path_normalize_def normalizeString_def)
  from merge_precedence [OF fo] a j
  have "logName fo = ''api'' \<and> level fo = Value warn \<and> maxFiles fo = Value 5 \<and>
      logDirectory fo = ''/srv/logs'' \<and> logDir ''/srv'' fo = ''/srv/logs/api''"
    by (simp add: emptyOptions_def)
  with a fo show ?thesis by blast
qed

subsection \<open>Relative paths under an absolute directory\<close>

lemma normSegs_then_plain:
  "list_all plainSeg P \<Longrightarrow> normSegs False R (U @ P) = normSegs False R U @ P"
  by (simp add: normSegs_append normSegs_plain)

lemma scan_relative_then_absolute:
  assumes "list_all plainSeg P" "\<forall>t\<in>set xs. CHR ''/'' \<notin> set t"
  shows "normSegs False R (normSegs True (replicate k ''..'' @ P) xs) =
         normSegs False (normSegs False R (replicate k ''..'' @ P)) xs"
  using assms
proof (induction xs arbitrary: k P)
  case Nil
  then show ?case by simp
next
  case (Cons x xs)
  let ?U = "replicate k ''..''"
  let ?Q = "normSegs False R ?U"
  have xs: "\<forall>t\<in>set xs. CHR ''/'' \<notin> set t" and x: "CHR ''/'' \<notin> set x"
    using Cons.prems(2) by simp_all
  have QP: "normSegs False R (?U @ P) = ?Q @ P"
    using Cons.prems(1) by (rule normSegs_then_plain)
  consider (skip) "x = [] \<or> x = ''.''" | (up) "x = ''..''" | (seg) "plainSeg x"
    using x by (auto simp: plainSeg_def)
  then show ?case
  proof cases
    case skip
    then show ?thesis
      using Cons.IH [OF Cons.prems(1) xs, of k] by auto
  next
    case up
    show ?thesis
    proof (cases "P = []")
      case True
      have l: "?U = [] \<or> last ?U = ''..''" by (cases k) auto
      have s: "?U @ [''..''] = replicate (Suc k) ''..'' @ []"
        by (simp add: replicate_append_same)
      have "normSegs True (?U @ P) (x # xs) = normSegs True (replicate (Suc k) ''..'' @ []) xs"
        using up True l s by auto
      moreover have "normSegs False R (normSegs True (replicate (Suc k) ''..'' @ []) xs) =
          normSegs False (normSegs False R (replicate (Suc k) ''..'' @ [])) xs"
        by (rule Cons.IH [OF _ xs]) simp
      moreover have "normSegs False (normSegs False R (?U @ P)) (x # xs) =
          normSegs False (normSegs False R (replicate (Suc k) ''..'' @ [])) xs"
      proof -
        have "normSegs False (normSegs False R (?U @ P)) (x # xs) =
              normSegs False R (?U @ (''..'' # xs))"
          by (simp only: up True append_Nil2 normSegs_append)
        moreover have "normSegs False (normSegs False R (replicate (Suc k) ''..'' @ [])) xs =
              normSegs False R ((?U @ [''..'']) @ xs)"
          by (simp only: s [symmetric] normSegs_append)
        ultimately show ?thesis by simp
      qed
      ultimately show ?thesis by simp
    next
      case False
      with Cons.prems(1) have lp: "plainSeg (last P)" by (simp add: list_all_iff)
      then have l: "last P \<noteq> ''..''" by (auto simp: plainSeg_def)
      have bp: "list_all plainSeg (butlast P)"
        using Cons.prems(1) by (rule list_all_butlast)
      have "normSegs True (?U @ P) (x # xs) = normSegs True (?U @ butlast P) xs"
        using up False l by (simp add: butlast_append)
      moreover have "normSegs False R (normSegs True (?U @ butlast P) xs) =
          normSegs False (normSegs False R (?U @ butlast P)) xs"
        by (rule Cons.IH [OF bp xs])
      moreover have "normSegs False (normSegs False R (?U @ P)) (x # xs) =
          normSegs False (normSegs False R (?U @ butlast P)) xs"
        using up False l bp by (simp add: QP normSegs_then_plain butlast_append)
      ultimately show ?thesis by simp
    qed
  next
    case seg
    then have ne: "x \<noteq> []" "x \<noteq> ''.''" "x \<noteq> ''..''" by (auto simp: plainSeg_def)
    have px: "list_all plainSeg (P @ [x])" using Cons.prems(1) seg by simp
    have "normSegs True (?U @ P) (x # xs) = normSegs True (?U @ (P @ [x])) xs"
      using ne by simp
    moreover have "normSegs False R (normSegs True (?U @ (P @ [x])) xs) =
        normSegs False (normSegs False R (?U @ (P @ [x]))) xs"
      by (rule Cons.IH [OF px xs])
    moreover have "normSegs False (normSegs False R (?U @ P)) (x # xs) =
        normSegs False (normSegs False R (?U @ (P @ [x]))) xs"
      using ne px by (simp add: QP normSegs_then_plain)
    ultimately show ?thesis by simp
  qed
qed

lemma scan_relative:
  "normSegs False R (normSegs True [] (splitSegs x)) = normSegs False R (splitSegs x)"
  using scan_relative_then_absolute [of "[]" "splitSegs x" R 0]
  by (auto dest: splitSegs_segments)

lemma kept_noslash: "list_all keptSeg S \<Longrightarrow> \<forall>t\<in>set S. CHR ''/'' \<notin> set t"
  by (simp add: list_all_iff keptSeg_def)

lemma scan_normalize_relative:
  assumes "\<not> path_isAbsolute x"
  shows "normSegs False R (splitSegs (path_normalize x)) = normSegs False R (splitSegs x)"
proof (cases "x = []")
  case True
  then show ?thesis by (simp add: path_normalize_def)
next
  case False
  with assms have h: "hd x \<noteq> CHR ''/''" by (cases x) (auto simp: path_isAbsolute_def)
  let ?S = "normSegs True [] (splitSegs x)"
  have k: "list_all keptSeg ?S" by (rule scan_kept)
  have r: "normSegs False R ?S = normSegs False R (splitSegs x)" by (rule scan_relative)
  show ?thesis
  proof (cases "?S = []")
    case True
    then have "path_normalize x = ''./'' \<or> path_normalize x = ''.''"
      using False h by (simp add: path_normalize_def normalizeString_def Let_def)
    then have "normSegs False R (splitSegs (path_normalize x)) = R" by auto
    with r True show ?thesis by simp
  next
    case S: False
    have j: "joinWith ''/'' ?S \<noteq> []" using kept_joinWith [OF k S] by simp
    have sj: "splitSegs (joinWith ''/'' ?S) = ?S"
      using S kept_noslash [OF k] by (rule splitSegs_joinWith)
    have sj': "splitSegs (joinWith ''/'' ?S @ ''/'') = ?S @ [[]]"
      using splitSegs_append_slash [of "joinWith ''/'' ?S" "[]"] sj by simp
    have "path_normalize x = joinWith ''/'' ?S \<or> path_normalize x = joinWith ''/'' ?S @ ''/''"
      using False h j by (simp add: path_normalize_def normalizeString_def Let_def)
    then have "normSegs False R (splitSegs (path_normalize x)) = normSegs False R ?S"
      using sj sj' by (auto simp: normSegs_append)
    with r show ?thesis by simp
  qed
qed

lemma createSafePath_relative:
  assumes "path_isAbsolute c" "\<not> path_isAbsolute x"
  shows "createSafePath c x =
         absRender (normSegs False (normSegs False [] (splitSegs c)) (splitSegs x)) False"
proof -
  have n: "\<not> path_isAbsolute (path_normalize x)" using assms(2) by (rule normalize_relative)
  have "createSafePath c x =
      absRender (normSegs False [] (splitSegs (c @ ''/'' @ path_normalize x @ ''/''))) False"
    using assms(1) n by (simp add: createSafePath_def resolve_relative normalize_nonempty)
  also have "splitSegs (c @ ''/'' @ path_normalize x @ ''/'') =
      splitSegs c @ splitSegs (path_normalize x) @ [[]]"
    using splitSegs_append_slash [of c "path_normalize x @ ''/''"]
      splitSegs_append_slash [of "path_normalize x" "[]"] by simp
  finally show ?thesis
    using scan_normalize_relative [OF assms(2)] by (simp add: normSegs_append)
qed

lemma createSafePath_absolute_segments:
  "path_isAbsolute x \<Longrightarrow>
   createSafePath c x = absRender (normSegs False [] (splitSegs x)) (last x = CHR ''/'')"
  by (simp add: createSafePath_absolute normalize_absolute)

lemma createSafePath_of_normalize:
  assumes "path_isAbsolute c"
  shows "createSafePath c (path_normalize x) = createSafePath c x"
proof (cases "path_isAbsolute x")
  case True
  then show ?thesis by (simp add: createSafePath_normalized createSafePath_absolute)
next
  case False
  then have "\<not> path_isAbsolute (path_normalize x)" by (rule normalize_relative)
  with assms False show ?thesis
    by (simp add: createSafePath_relative scan_normalize_relative)
qed

lemma joinSafePaths_absRender:
  assumes "list_all plainSeg T" "N \<noteq> []"
  shows "joinSafePaths c [absRender T tr, N] =
         absRender (normSegs False T (splitSegs N)) (last N = CHR ''/'')"
proof -
  have r: "absRender T tr \<noteq> []" by (simp add: absRender_def)
  have abs: "path_isAbsolute (absRender T tr @ CHR ''/'' # N)"
    by (simp add: absRender_def path_isAbsolute_def)
  have sc: "normSegs False [] (splitSegs (absRender T tr)) = T"
    using assms(1) by (rule scan_absRender)
  have pl: "list_all plainSeg (normSegs False T (splitSegs N))"
    using assms(1) by (rule normSegs_False_plain) (auto dest: splitSegs_segments)
  have "path_join [absRender T tr, N] =
        absRender (normSegs False T (splitSegs N)) (last N = CHR ''/'')"
    using assms(2) r by (simp add: path_join_def normalize_absolute [OF abs]
        scan_absolute_append sc)
  with pl show ?thesis by (simp add: joinSafePaths_def createSafePath_fixed)
qed

lemma joinSafePaths_absRender_empty:
  assumes "list_all plainSeg T"
  shows "joinSafePaths c [absRender T tr, []] = absRender T tr"
proof -
  have r: "absRender T tr \<noteq> []" by (simp add: absRender_def)
  have "path_join [absRender T tr, []] = absRender T tr"
    using assms r by (simp add: path_join_def normalize_absRender)
  with assms show ?thesis by (simp add: joinSafePaths_def createSafePath_fixed)
qed

lemma join_twice_raw:
  assumes "path_isAbsolute c" "D \<noteq> []"
  shows "joinSafePaths c [joinSafePaths c [D, N], N] =
         joinSafePaths c [joinSafePaths c [createSafePath c D, N], N]"
proof -
  obtain S tr where S: "list_all plainSeg S" "createSafePath c D = absRender S tr"
    using createSafePath_normal [OF assms(1)] by blast
  show ?thesis
  proof (cases "N = []")
    case True
    have "joinSafePaths c [D, N] = createSafePath c (path_normalize D)"
      using True assms(2) by (simp add: joinSafePaths_def path_join_def)
    also have "\<dots> = createSafePath c D"
      using assms(1) by (rule createSafePath_of_normalize)
    also have "\<dots> = joinSafePaths c [createSafePath c D, N]"
      using True S by (simp add: joinSafePaths_absRender_empty)
    finally show ?thesis by simp
  next
    case N: False
    have B: "joinSafePaths c [createSafePath c D, N] =
             absRender (normSegs False S (splitSegs N)) (last N = CHR ''/'')"
      unfolding S(2) using S(1) N by (rule joinSafePaths_absRender)
    have pl: "list_all plainSeg (normSegs False S (splitSegs N))"
      using S(1) by (rule normSegs_False_plain) (auto dest: splitSegs_segments)
    have j: "path_join [D, N] = path_normalize (D @ CHR ''/'' # N)"
      using assms(2) N by (simp add: path_join_def)
    have "\<exists>tr'. joinSafePaths c [D, N] = absRender (normSegs False S (splitSegs N)) tr'"
    proof (cases "path_isAbsolute D")
      case True
      then have abs: "path_isAbsolute (D @ CHR ''/'' # N)" by (auto simp: isAbsolute_iff)
      have SD: "absRender S tr = absRender (normSegs False [] (splitSegs D)) (last D = CHR ''/'')"
        using True S(2) by (simp add: createSafePath_absolute_segments)
      have "normSegs False [] (splitSegs (absRender S tr)) = S"
        using S(1) by (rule scan_absRender)
      then have "S = normSegs False [] (splitSegs D)"
        by (simp add: SD scan_absRender scan_plain)
      then have "joinSafePaths c [D, N] =
          absRender (normSegs False S (splitSegs N)) (last N = CHR ''/'')"
        using N pl by (simp add: joinSafePaths_def j normalize_absolute [OF abs]
            scan_absolute_append createSafePath_fixed)
      then show ?thesis by blast
    next
      case False
      then have rel: "\<not> path_isAbsolute (D @ CHR ''/'' # N)"
        using assms(2) by (cases D) (auto simp: path_isAbsolute_def)
      have SD: "absRender S tr =
          absRender (normSegs False (normSegs False [] (splitSegs c)) (splitSegs D)) False"
        using False assms(1) S(2) by (simp add: createSafePath_relative)
      have "normSegs False [] (splitSegs (absRender S tr)) = S"
        using S(1) by (rule scan_absRender)
      moreover have "list_all plainSeg (normSegs False (normSegs False [] (splitSegs c)) (splitSegs D))"
        by (rule normSegs_False_plain [OF scan_plain]) (auto dest: splitSegs_segments)
      ultimately have "S = normSegs False (normSegs False [] (splitSegs c)) (splitSegs D)"
        by (simp add: SD scan_absRender)
      then have "joinSafePaths c [D, N] = absRender (normSegs False S (splitSegs N)) False"
        using assms(1) rel
        by (simp add: joinSafePaths_def j createSafePath_of_normalize createSafePath_relative
            splitSegs_append_slash normSegs_append)
      then show ?thesis by blast
    qed
    then obtain tr' where A: "joinSafePaths c [D, N] =
        absRender (normSegs False S (splitSegs N)) tr'" by blast
    show ?thesis
      unfolding A B using pl N by (simp add: joinSafePaths_absRender)
  qed
qed

subsection \<open>The paths of the log files\<close>

lemma filePaths_append: "filePaths (xs @ ys) = filePaths xs @ filePaths ys"
  by (induction xs rule: filePaths.induct) auto

lemma filePaths_caller: "filePaths (map CallerTransport ts) = []"
  by (induction ts) auto

lemma sinkPath_literal:
  assumes "path_isAbsolute c" "D \<noteq> []"
    and "N = joinWith ''/'' T" "T \<noteq> []" "list_all plainSeg T" "CHR ''/'' \<notin> set sfx"
  shows "sinkPath c D N sfx = dirPrefix (createSafePath c D) @ ''/'' @ N @ ''/'' @ N @ sfx"
proof -
  obtain S tr where S: "list_all plainSeg S" "createSafePath c D = absRender S tr"
    using createSafePath_normal [OF assms(1)] by blast
  have N: "N \<noteq> []" "last N \<noteq> CHR ''/''"
    using assms(3-5) by (simp_all add: plain_joinWith_nonempty plain_joinWith_last)
  have sp: "splitSegs N = T"
    unfolding assms(3) using assms(4,5)
    by (intro splitSegs_joinWith) (auto simp: list_all_iff plainSeg_def)
  have ST: "list_all plainSeg (S @ T)" using S(1) assms(5) by simp
  have l: "joinSafePaths c [absRender S tr, N] = absRender (S @ T) False"
    using N assms(5) by (simp add: joinSafePaths_absRender [OF S(1)] sp normSegs_plain)
  have b: "joinSafePaths c [absRender (S @ T) False, N] = absRender ((S @ T) @ T) False"
    using N assms(5) by (simp add: joinSafePaths_absRender [OF ST] sp normSegs_plain)
  let ?L = "butlast T @ [last T @ sfx]"
  have T: "T = butlast T @ [last T]" using assms(4) by simp
  have pl: "plainSeg (last T @ sfx)"
    using assms(4-6) by (intro plainSeg_append) (simp_all add: list_all_iff)
  have L: "list_all plainSeg ?L" "?L \<noteq> []"
    using pl list_all_butlast [OF assms(5)] by simp_all
  have jl: "joinWith ''/'' ?L = N @ sfx"
    using joinWith_snoc_append [of "''/''" "butlast T" "last T" sfx] T
    by (simp add: assms(3))
  have "(S @ T) @ T = (S @ T @ butlast T) @ [last T]" using T by simp
  then have "joinWith ''/'' ((S @ T) @ T) @ sfx = joinWith ''/'' ((S @ T @ butlast T) @ [last T @ sfx])"
    using joinWith_snoc_append [of "''/''" "S @ T @ butlast T" "last T" sfx] by simp
  then have a: "absRender ((S @ T) @ T) False @ sfx = absRender (S @ T @ ?L) False"
    using assms(4) by (simp add: absRender_def)
  have all: "list_all plainSeg (S @ T @ ?L)" using S(1) assms(5) L(1) by simp
  have "sinkPath c D N sfx = absRender (S @ T @ ?L) False"
    using all
    by (simp add: sinkPath_def join_twice_raw [OF assms(1,2)] S(2) l b
        createSafePathWithSuffix_def a createSafePath_fixed del: append_assoc)
  also have "\<dots> = dirPrefix (absRender S tr) @ ''/'' @ joinWith ''/'' (T @ ?L)"
    using dirPrefix_absRender [OF S(1), of "T @ ?L" tr] assms(4) by simp
  also have "joinWith ''/'' (T @ ?L) = N @ ''/'' @ N @ sfx"
    using joinWith_append [OF assms(4) L(2), of "''/''"] by (simp only: jl assms(3))
  finally show ?thesis by (simp add: S(2))
qed

text \<open>
  Claim C4, as the specification states it, fails for a caller who supplies the empty
  string as \<^verbatim>\<open>logDirectory\<close>: the files are then under the default log path, not at the
  join of \<open>D\<close> and \<open>N\<close>, joined again with \<open>N\<close>, with the suffix appended, and not at the
  string \<open>D/N/N-All.log\<close> either.
\<close>

theorem empty_logDirectory_paths:
  "map_sum id (filePaths \<circ> logger_transports)
     (snd (snd (createLogger growingFs \<lparr> NODE_ENV = Some ''test'', cwd = ''/srv'' \<rparr> []
        (emptyOptions \<lparr> logName := Value ''api'', logDirectory := Value '''',
           enableFileLogging := Value True, separateErrorLog := Value True,
           separateWarnLog := Value True \<rparr> :: (unit, unit) LoggerOptions)))) =
     Inr [''/srv/logs/api/api-All.log'', ''/srv/logs/api/api-error.log'',
          ''/srv/logs/api/api-warn.log''] \<and>
   sinkPath ''/srv'' '''' ''api'' ''-All.log'' = ''/srv/api/api-All.log'' \<and>
   '''' @ ''/'' @ ''api'' @ ''/'' @ ''api'' @ ''-All.log'' = ''/api/api-All.log''"
  by (simp add: createLogger_def defaultOptions_def bindR_def MB_def createBytes_def
      isValidEnvironment_def finalOptions_def emptyOptions_def safeLogDirectory_def
      getDefaultLogPath_def transports_def fileOptions_def createLogPath_def logDir_def
      sinkPath_def createSafePathWithSuffix_def joinSafePaths_def createSafePath_def
      path_join_def path_normalize_def normalizeString_def path_isAbsolute_def
      path_resolve_def growingFs_def Let_def)

text \<open>
  Claim C4, amended. Let the working directory be absolute and the caller's \<^verbatim>\<open>logDirectory\<close>
  \<open>D\<close> not empty, and let \<open>N\<close> be the caller's \<^verbatim>\<open>logName\<close>. Whenever \<^verbatim>\<open>createLogger\<close> returns a
  logger and file logging, the separate error log and the separate warning log are on in
  the configuration resolved for the call, the file transports of that logger are, in
  this order, at the join of \<open>D\<close> and \<open>N\<close>, joined again with \<open>N\<close>, with \<^verbatim>\<open>-All.log\<close> (or
  \<^verbatim>\<open>-%DATE%.log\<close> with daily rotation), \<^verbatim>\<open>-error.log\<close> and \<^verbatim>\<open>-warn.log\<close> appended. When \<open>N\<close>
  is made of ordinary segments (one, or several with \<^verbatim>\<open>/\<close> between them), such a path is
  the string \<open>P/N/N\<close> followed by the suffix, where \<open>P\<close> is \<^verbatim>\<open>createSafePath(D)\<close> without a
  separator at its end; and \<open>P\<close> is \<open>D\<close> itself when \<open>D\<close> is absolute, normalized and does
  not end with a separator.
\<close>

theorem file_sink_paths:
  fixes options :: "('t, 'f) LoggerOptions"
  assumes "path_isAbsolute (cwd p)"
    and "createLogger fsys p fs options = (out, fs', Inr lg)"
    and "get (logDirectory options) = Some D" and "D \<noteq> []"
    and "get (logName options) = Some N"
  shows "\<exists>fo. resolveOptions (cwd p) (ambientEnvironment p) options = Inr fo \<and>
           (truthy (get (enableFileLogging fo)) \<and> truthy (get (separateErrorLog fo)) \<and>
            truthy (get (separateWarnLog fo)) \<longrightarrow>
              filePaths (logger_transports lg) =
                [sinkPath (cwd p) D N
                   (if truthy (get (useDailyRotation fo)) then ''-%DATE%.log''
                    else ''-All.log''),
                 sinkPath (cwd p) D N ''-error.log'',
                 sinkPath (cwd p) D N ''-warn.log'']) \<and>
           (N = joinWith ''/'' T \<and> T \<noteq> [] \<and> list_all plainSeg T \<and> CHR ''/'' \<notin> set sfx \<longrightarrow>
              sinkPath (cwd p) D N sfx =
                dirPrefix (createSafePath (cwd p) D) @ ''/'' @ N @ ''/'' @ N @ sfx) \<and>
           (path_isAbsolute D \<and> path_normalize D = D \<and> last D \<noteq> CHR ''/'' \<longrightarrow>
              dirPrefix (createSafePath (cwd p) D) = D)"
proof -
  let ?c = "cwd p"
  obtain t :: "Environment \<Rightarrow> ('t, 'f) LoggerOptions" where t: "defaultOptions = Inr t"
    using defaultOptions_loaded by blast
  have "\<exists>fo. resolveOptions (cwd p) (ambientEnvironment p) options = Inr fo \<and>
          logger_transports lg = transports (cwd p) fo"
  proof (cases "isValidEnvironment (ambientEnvironment p)")
    case None
    with assms(2) show ?thesis
      by (simp add: createLogger_def t ambientEnvironment_def Let_def)
  next
    case (Some e)
    obtain fo where fo: "finalOptions (cwd p) (t e) options = Inr fo"
      using finalOptions_total by blast
    have r: "resolveOptions (cwd p) (ambientEnvironment p) options = Inr fo"
      by (simp add: resolveOptions_def bindR_def t Some fo)
    from Some have "isValidEnvironment
        (case NODE_ENV p of None \<Rightarrow> ''development''
         | Some v \<Rightarrow> if v \<noteq> [] then v else ''development'') = Some e"
      by (simp add: ambientEnvironment_def)
    with assms(2) have "logger_transports lg = transports (cwd p) fo"
      by (auto simp: createLogger_def t fo Let_def split: sum.splits error.splits if_splits)
    with r show ?thesis by blast
  qed
  then obtain fo where fo: "resolveOptions (cwd p) (ambientEnvironment p) options = Inr fo"
    and tr: "logger_transports lg = transports (cwd p) fo"
    by blast
  obtain d where d: "finalOptions ?c d options = Inr fo"
    using resolveOptions_final [OF fo] by blast
  have n: "logName fo = N"
    using finalOptions_fields(1) [OF d] assms(5) by simp
  have ld: "logDirectory fo = createSafePath ?c D"
    using finalOptions_fields(2) [OF d] assms(3,4) by (simp add: safeLogDirectory_def)
  have p: "\<And>s. createLogPath ?c fo s = sinkPath ?c D N s"
    by (simp add: createLogPath_def logDir_def n ld sinkPath_def
        join_twice_raw [OF assms(1,4)])
  have 1: "truthy (get (enableFileLogging fo)) \<and> truthy (get (separateErrorLog fo)) \<and>
            truthy (get (separateWarnLog fo)) \<longrightarrow>
              filePaths (logger_transports lg) =
                [sinkPath ?c D N
                   (if truthy (get (useDailyRotation fo)) then ''-%DATE%.log''
                    else ''-All.log''),
                 sinkPath ?c D N ''-error.log'',
                 sinkPath ?c D N ''-warn.log'']"
    by (simp add: tr transports_def filePaths_append filePaths_caller fileOptions_def p
        split: option.split)
  have 2: "N = joinWith ''/'' T \<and> T \<noteq> [] \<and> list_all plainSeg T \<and> CHR ''/'' \<notin> set sfx \<longrightarrow>
              sinkPath ?c D N sfx =
                dirPrefix (createSafePath ?c D) @ ''/'' @ N @ ''/'' @ N @ sfx"
    using sinkPath_literal [OF assms(1,4), of N T sfx] by blast
  have 3: "path_isAbsolute D \<and> path_normalize D = D \<and> last D \<noteq> CHR ''/'' \<longrightarrow>
              dirPrefix (createSafePath ?c D) = D"
    by (simp add: createSafePath_def dirPrefix_def)
  from fo 1 2 3 show ?thesis by blast
qed

theorem file_sink_paths_witness:
  "path_isAbsolute ''/srv'' \<and>
   (\<exists>lg. createLogger growingFs \<lparr> NODE_ENV = Some ''test'', cwd = ''/srv'' \<rparr> []
            (emptyOptions \<lparr> logName := Value ''api'', logDirectory := Value ''./out'',
               enableFileLogging := Value True, separateErrorLog := Value True,
               separateWarnLog := Value True \<rparr> :: (unit, unit) LoggerOptions) =
          ([], [''/srv/out/api''], Inr lg) \<and>
        filePaths (logger_transports lg) =
          [''/srv/out/api/api-All.log'', ''/srv/out/api/api-error.log'',
           ''/srv/out/api/api-warn.log''])"
proof -
  let ?p = "\<lparr> NODE_ENV = Some ''test'', cwd = ''/srv'' \<rparr>"
  let ?o = "emptyOptions \<lparr> logName := Value ''api'', logDirectory := Value ''./out'',
               enableFileLogging := Value True, separateErrorLog := Value True,
               separateWarnLog := Value True \<rparr> :: (unit, unit) LoggerOptions"
  have a: "path_isAbsolute (cwd ?p)" "path_isAbsolute ''/srv''"
    by (simp_all add: path_isAbsolute_def)
  have "\<exists>lg. createLogger growingFs ?p [] ?o = ([], [''/srv/out/api''], Inr lg)"
    by (simp add: createLogger_def defaultOptions_def bindR_def MB_def createBytes_def
        isValidEnvironment_def finalOptions_def emptyOptions_def safeLogDirectory_def
        joinSafePaths_def createSafePath_def path_join_def path_normalize_def
        normalizeString_def path_isAbsolute_def path_resolve_def logDir_def growingFs_def
        Let_def)
  then obtain lg where lg: "createLogger growingFs ?p [] ?o = ([], [''/srv/out/api''], Inr lg)"
    by blast
  have o: "get (logDirectory ?o) = Some ''./out''" "get (logName ?o) = Some ''api''"
    "''./out'' \<noteq> []"
    by (simp_all add: emptyOptions_def)
  from file_sink_paths [OF a(1) lg o(1) o(3) o(2)] obtain fo where
    fo: "resolveOptions (cwd ?p) (ambientEnvironment ?p) ?o = Inr fo" and
    f: "truthy (get (enableFileLogging fo)) \<and> truthy (get (separateErrorLog fo)) \<and>
            truthy (get (separateWarnLog fo)) \<longrightarrow>
              filePaths (logger_transports lg) =
                [sinkPath (cwd ?p) ''./out'' ''api''
                   (if truthy (get (useDailyRotation fo)) then ''-%DATE%.log''
                    else ''-All.log''),
                 sinkPath (cwd ?p) ''./out'' ''api'' ''-error.log'',
                 sinkPath (cwd ?p) ''./out'' ''api'' ''-warn.log'']"
    by blast
  from fo have fl: "truthy (get (enableFileLogging fo))" "truthy (get (separateErrorLog fo))"
    "truthy (get (separateWarnLog fo))" "\<not> truthy (get (useDailyRotation fo))"
    by (auto simp: resolveOptions_def ambientEnvironment_def defaultOptions_def bindR_def
        MB_def createBytes_def isValidEnvironment_def finalOptions_def emptyOptions_def
        split: sum.splits)
  have s: "sinkPath ''/srv'' ''./out'' ''api'' ''-All.log'' = ''/srv/out/api/api-All.log''"
    "sinkPath ''/srv'' ''./out'' ''api'' ''-error.log'' = ''/srv/out/api/api-error.log''"
    "sinkPath ''/srv'' ''./out'' ''api'' ''-warn.log'' = ''/srv/out/api/api-warn.log''"
    by (simp_all add: sinkPath_def createSafePathWithSuffix_def joinSafePaths_def
        createSafePath_def path_join_def path_normalize_def normalizeString_def
        path_isAbsolute_def path_resolve_def)
  from f fl s have "filePaths (logger_transports lg) =
          [''/srv/out/api/api-All.log'', ''/srv/out/api/api-error.log'',
           ''/srv/out/api/api-warn.log'']"
    by simp
  with a(2) lg show ?thesis by blast
qed

end
